theory Spec2Isabelle
  imports Complex_Main "HOL-Library.AList"
begin

section \<open>Values exchanged with the outside\<close>

text \<open>
  The value that \<^verbatim>\<open>json.loads\<close> or \<^verbatim>\<open>response.json()\<close> hands to the program.
  A Python dict is an association list read with \<open>map_of\<close>; numbers carry their value.
\<close>

datatype json =
    JNull
  | JBool bool
  | JNum real
  | JStr string
  | JArr "json list"
  | JObj "(string \<times> json) list"

text \<open>
  Exceptions that the modelled calls raise. \<open>CancelledError\<close> derives from
  \<^verbatim>\<open>BaseException\<close> only, so \<^verbatim>\<open>except Exception\<close> does not catch it.
\<close>

datatype exn = JSONDecodeError | AttributeError | ConnectionClosed | RequestException | CancelledError

definition is_Exception :: "exn \<Rightarrow> bool" where
  "is_Exception e = (e \<noteq> CancelledError)"

text \<open>Python truthiness, as \<^verbatim>\<open>if symbol:\<close> and \<^verbatim>\<open>if result:\<close> test it.\<close>

fun truthy :: "json \<Rightarrow> bool" where
  "truthy JNull = False"
| "truthy (JBool b) = b"
| "truthy (JNum n) = (n \<noteq> 0)"
| "truthy (JStr s) = (s \<noteq> [])"
| "truthy (JArr xs) = (xs \<noteq> [])"
| "truthy (JObj kvs) = (kvs \<noteq> [])"

text \<open>\<^verbatim>\<open>d.get(k, default)\<close>: only a dict has the method.\<close>

fun py_get :: "json \<Rightarrow> string \<Rightarrow> json \<Rightarrow> exn + json" where
  "py_get (JObj kvs) k d = Inr (case map_of kvs k of Some v \<Rightarrow> v | None \<Rightarrow> d)"
| "py_get _ k d = Inl AttributeError"

text \<open>
  \<^verbatim>\<open>str.upper\<close> on the ASCII letters of a ticker symbol. The properties below hold for
  whatever function stands here: none of them looks into it.
\<close>

definition char_upper :: "char \<Rightarrow> char" where
  "char_upper c =
     (let n = (of_char c :: nat) in if 97 \<le> n \<and> n \<le> 122 then char_of (n - 32) else c)"

definition upper :: "string \<Rightarrow> string" where
  "upper s = map char_upper s"

text \<open>\<^verbatim>\<open>symbol.upper()\<close> on whatever value the message carried.\<close>

fun py_upper :: "json \<Rightarrow> exn + string" where
  "py_upper (JStr s) = Inr (upper s)"
| "py_upper _ = Inl AttributeError"

section \<open>The server object and its surroundings\<close>

type_synonym conn = nat

type_synonym snapshot = "(string \<times> json) list"

datatype out_msg = Stock_update string snapshot | Pong string

datatype level = INFO | WARNING | ERROR

datatype log_msg =
    Client_connected nat
  | Client_disconnected nat
  | Client_subscribed string
  | Client_unsubscribed string
  | Unknown_action json
  | Invalid_JSON string
  | Error_handling exn
  | Error_fetching string exn
  | Server_stopped

datatype listener = Listening | Closed_listener

text \<open>
  The fields of \<^verbatim>\<open>StockWebSocketServer\<close> that the operations read or write
  (\<open>clients\<close>, \<open>stock_data\<close>, \<open>running\<close>, \<open>server\<close>), and the effects they have on
  the outside: \<open>outbox\<close> holds every message a \<^verbatim>\<open>websocket.send\<close> delivered,
  \<open>requests\<close> every URL given to \<^verbatim>\<open>requests.get\<close>, \<open>log\<close> every logger call.
  \<open>closed\<close> is the set of connections whose transport is closed: a send to one of
  them raises \<^verbatim>\<open>ConnectionClosed\<close>. The dict \<open>clients\<close> keeps insertion order.
\<close>

record world =
  clients :: "(conn \<times> string set) list"
  stock_data :: "string \<rightharpoonup> snapshot"
  running :: bool
  server :: "listener option"
  closed :: "conn set"
  outbox :: "(conn \<times> out_msg) list"
  requests :: "string list"
  log :: "(level \<times> log_msg) list"

datatype http_outcome = Transport_failure | Response int "json option"

text \<open>
  What the program reads from outside at one moment: the API key, the answer of
  \<^verbatim>\<open>requests.get\<close> to a URL (the body is \<open>None\<close> when \<^verbatim>\<open>response.json()\<close> raises),
  the clock, and \<^verbatim>\<open>json.loads\<close> (\<open>None\<close> is \<^verbatim>\<open>JSONDecodeError\<close>).
\<close>

record env =
  POLYGON_API_KEY :: string
  requests_get :: "string \<Rightarrow> http_outcome"
  datetime_now :: string
  json_loads :: "string \<Rightarrow> json option"

definition logger :: "level \<Rightarrow> log_msg \<Rightarrow> world \<Rightarrow> world" where
  "logger l m w = w\<lparr>log := log w @ [(l, m)]\<rparr>"

definition send :: "conn \<Rightarrow> out_msg \<Rightarrow> world \<Rightarrow> exn option \<times> world" where
  "send ws m w =
     (if ws \<in> closed w then (Some ConnectionClosed, w)
      else (None, w\<lparr>outbox := outbox w @ [(ws, m)]\<rparr>))"

section \<open>Connection registry\<close>

definition register :: "conn \<Rightarrow> world \<Rightarrow> world" where
  "register ws w =
     (let w1 = w\<lparr>clients := AList.update ws {} (clients w)\<rparr>
      in logger INFO (Client_connected (length (clients w1))) w1)"

definition unregister :: "conn \<Rightarrow> world \<Rightarrow> world" where
  "unregister ws w =
     (let w1 = (if map_of (clients w) ws \<noteq> None
                then w\<lparr>clients := AList.delete ws (clients w)\<rparr> else w)
      in logger INFO (Client_disconnected (length (clients w1))) w1)"

definition subscribe :: "conn \<Rightarrow> json \<Rightarrow> world \<Rightarrow> exn option \<times> world" where
  "subscribe ws symbol w =
     (if map_of (clients w) ws \<noteq> None then
        (case py_upper symbol of
           Inl e \<Rightarrow> (Some e, w)
         | Inr u \<Rightarrow>
            (let w1 = w\<lparr>clients := AList.map_entry ws (insert u) (clients w)\<rparr> in
             (case stock_data w1 u of
                Some data \<Rightarrow>
                  (case send ws (Stock_update u data) w1 of
                     (Some e, w2) \<Rightarrow> (Some e, w2)
                   | (None, w2) \<Rightarrow> (None, logger INFO (Client_subscribed u) w2))
              | None \<Rightarrow> (None, logger INFO (Client_subscribed u) w1))))
      else (None, w))"

definition unsubscribe :: "conn \<Rightarrow> json \<Rightarrow> world \<Rightarrow> exn option \<times> world" where
  "unsubscribe ws symbol w =
     (case map_of (clients w) ws of
        None \<Rightarrow> (None, w)
      | Some subscriptions \<Rightarrow>
         (case py_upper symbol of
            Inl e \<Rightarrow> (Some e, w)
          | Inr u \<Rightarrow>
             (if u \<in> subscriptions then
                (None, logger INFO (Client_unsubscribed u)
                         (w\<lparr>clients := AList.map_entry ws (\<lambda>s. s - {u}) (clients w)\<rparr>))
              else (None, w))))"

section \<open>Connection handler\<close>

text \<open>The body of the \<^verbatim>\<open>try\<close> block of \<^verbatim>\<open>handle_message\<close>.\<close>

definition handle_message_body :: "env \<Rightarrow> conn \<Rightarrow> string \<Rightarrow> world \<Rightarrow> exn option \<times> world" where
  "handle_message_body e ws message w =
     (case json_loads e message of
        None \<Rightarrow> (Some JSONDecodeError, w)
      | Some data \<Rightarrow>
         (case py_get data ''action'' JNull of
            Inl ex \<Rightarrow> (Some ex, w)
          | Inr action \<Rightarrow>
             (if action = JStr ''subscribe'' then
                (case py_get data ''symbol'' JNull of
                   Inl ex \<Rightarrow> (Some ex, w)
                 | Inr symbol \<Rightarrow> if truthy symbol then subscribe ws symbol w else (None, w))
              else if action = JStr ''unsubscribe'' then
                (case py_get data ''symbol'' JNull of
                   Inl ex \<Rightarrow> (Some ex, w)
                 | Inr symbol \<Rightarrow> if truthy symbol then unsubscribe ws symbol w else (None, w))
              else if action = JStr ''ping'' then
                send ws (Pong (datetime_now e)) w
              else (None, logger WARNING (Unknown_action action) w))))"

definition handle_message :: "env \<Rightarrow> conn \<Rightarrow> string \<Rightarrow> world \<Rightarrow> exn option \<times> world" where
  "handle_message e ws message w =
     (case handle_message_body e ws message w of
        (None, w1) \<Rightarrow> (None, w1)
      | (Some ex, w1) \<Rightarrow>
          (if ex = JSONDecodeError then (None, logger ERROR (Invalid_JSON message) w1)
           else if is_Exception ex then (None, logger ERROR (Error_handling ex) w1)
           else (Some ex, w1)))"

text \<open>
  The loop \<^verbatim>\<open>async for message in websocket\<close>: the inbox lists the messages that
  arrive before the transport closes, each with the surroundings at its handling.
  An exception of \<open>handle_message\<close> leaves the loop.
\<close>

fun receive_loop :: "conn \<Rightarrow> (env \<times> string) list \<Rightarrow> world \<Rightarrow> exn option \<times> world" where
  "receive_loop ws [] w = (None, w)"
| "receive_loop ws ((e, message) # rest) w =
     (case handle_message e ws message w of
        (Some ex, w1) \<Rightarrow> (Some ex, w1)
      | (None, w1) \<Rightarrow> receive_loop ws rest w1)"

definition handler :: "conn \<Rightarrow> (env \<times> string) list \<Rightarrow> world \<Rightarrow> exn option \<times> world" where
  "handler ws inbox w =
     (case receive_loop ws inbox (register ws w) of
        (None, w1) \<Rightarrow> (None, unregister ws w1)
      | (Some ex, w1) \<Rightarrow>
          (if ex = ConnectionClosed then (None, unregister ws w1)
           else (Some ex, unregister ws w1)))"

section \<open>Upstream fetcher\<close>

definition trade_url :: "env \<Rightarrow> string \<Rightarrow> string" where
  "trade_url e symbol =
     ''https://api.polygon.io/v2/last/trade/'' @ symbol @ ''?apiKey='' @ POLYGON_API_KEY e"

text \<open>
  The \<^verbatim>\<open>try\<close> block of \<^verbatim>\<open>fetch_stock_data\<close> once \<^verbatim>\<open>requests.get\<close> has answered:
  \<open>Inl\<close> is an exception raised inside the block, \<open>Inr\<close> the value it returns.
\<close>

definition fetch_try :: "env \<Rightarrow> http_outcome \<Rightarrow> exn + snapshot option" where
  "fetch_try e outcome =
     (case outcome of
        Transport_failure \<Rightarrow> Inl RequestException
      | Response status_code body \<Rightarrow>
          (if status_code = 200 then
             (case body of
                None \<Rightarrow> Inl JSONDecodeError
              | Some data \<Rightarrow>
                 (case py_get data ''results'' (JObj []) of
                    Inl ex \<Rightarrow> Inl ex
                  | Inr result \<Rightarrow>
                     (if truthy result then
                        (case py_get result ''p'' (JNum 0) of Inl ex \<Rightarrow> Inl ex | Inr p \<Rightarrow>
                         (case py_get result ''s'' (JNum 0) of Inl ex \<Rightarrow> Inl ex | Inr s \<Rightarrow>
                          (case py_get result ''t'' (JNum 0) of Inl ex \<Rightarrow> Inl ex | Inr t \<Rightarrow>
                           (case py_get result ''x'' (JNum 0) of Inl ex \<Rightarrow> Inl ex | Inr x \<Rightarrow>
                            (case py_get result ''c'' (JArr []) of Inl ex \<Rightarrow> Inl ex | Inr c \<Rightarrow>
                               Inr (Some [(''price'', p), (''size'', s), (''timestamp'', t),
                                          (''exchange'', x), (''conditions'', c),
                                          (''updated_at'', JStr (datetime_now e))]))))))
                      else Inr None)))
           else Inr None))"

definition fetch_stock_data :: "env \<Rightarrow> string \<Rightarrow> world \<Rightarrow> snapshot option \<times> world" where
  "fetch_stock_data e symbol w =
     (let url = trade_url e symbol;
          w1 = w\<lparr>requests := requests w @ [url]\<rparr>
      in (case fetch_try e (requests_get e url) of
            Inr r \<Rightarrow> (r, w1)
          | Inl ex \<Rightarrow> (None, logger ERROR (Error_fetching symbol ex) w1)))"

section \<open>Broadcast scheduler\<close>

definition all_symbols :: "world \<Rightarrow> string set" where
  "all_symbols w = fold (\<lambda>subscriptions acc. acc \<union> subscriptions) (map snd (clients w)) {}"

text \<open>A list is an iteration order of a Python set: every member once.\<close>

definition iterates :: "'a list \<Rightarrow> 'a set \<Rightarrow> bool" where
  "iterates xs S = (distinct xs \<and> set xs = S)"

text \<open>
  The inner loop over \<^verbatim>\<open>self.clients.items()\<close>: only \<^verbatim>\<open>ConnectionClosed\<close> is
  swallowed, any other exception of a send leaves the loop.
\<close>

fun push_all :: "string \<Rightarrow> snapshot \<Rightarrow> (conn \<times> string set) list \<Rightarrow> world \<Rightarrow> exn option \<times> world" where
  "push_all symbol data [] w = (None, w)"
| "push_all symbol data ((websocket, subscriptions) # rest) w =
     (if symbol \<in> subscriptions then
        (case send websocket (Stock_update symbol data) w of
           (None, w1) \<Rightarrow> push_all symbol data rest w1
         | (Some ex, w1) \<Rightarrow>
             (if ex = ConnectionClosed then push_all symbol data rest w1 else (Some ex, w1)))
      else push_all symbol data rest w)"

text \<open>
  The loop \<^verbatim>\<open>for symbol in all_symbols\<close>; \<open>env_at symbol\<close> is what the outside
  answers while that symbol is fetched.
\<close>

fun for_symbols :: "(string \<Rightarrow> env) \<Rightarrow> string list \<Rightarrow> world \<Rightarrow> exn option \<times> world" where
  "for_symbols env_at [] w = (None, w)"
| "for_symbols env_at (symbol # rest) w =
     (case fetch_stock_data (env_at symbol) symbol w of
        (None, w1) \<Rightarrow> for_symbols env_at rest w1
      | (Some data, w1) \<Rightarrow>
          (if data \<noteq> [] then
             (let w2 = w1\<lparr>stock_data := (stock_data w1)(symbol \<mapsto> data)\<rparr> in
              (case push_all symbol data (clients w2) w2 of
                 (Some ex, w3) \<Rightarrow> (Some ex, w3)
               | (None, w3) \<Rightarrow> for_symbols env_at rest w3))
           else for_symbols env_at rest w1))"

text \<open>
  One pass of the body of \<^verbatim>\<open>while self.running\<close>. \<open>iter\<close> is the order in which
  Python iterates a set.
\<close>

definition broadcast_cycle ::
  "(string \<Rightarrow> env) \<Rightarrow> (string set \<Rightarrow> string list) \<Rightarrow> world \<Rightarrow> exn option \<times> world" where
  "broadcast_cycle env_at iter w = for_symbols env_at (iter (all_symbols w)) w"

text \<open>
  The loop of \<^verbatim>\<open>broadcast_updates\<close>, one list element for each pass that the
  observation covers: \<open>None\<close> when the loop is still running after all of them,
  \<open>Some\<close> when it has returned or raised.
\<close>

fun broadcast_updates ::
  "((string \<Rightarrow> env) \<times> (string set \<Rightarrow> string list)) list \<Rightarrow> world \<Rightarrow> (exn option \<times> world) option" where
  "broadcast_updates [] w = (if running w then None else Some (None, w))"
| "broadcast_updates ((env_at, iter) # rounds) w =
     (if running w then
        (case broadcast_cycle env_at iter w of
           (Some ex, w1) \<Rightarrow> Some (Some ex, w1)
         | (None, w1) \<Rightarrow> broadcast_updates rounds w1)
      else Some (None, w))"

section \<open>Server lifecycle\<close>

definition stop :: "world \<Rightarrow> world" where
  "stop w =
     (let w1 = w\<lparr>running := False\<rparr>;
          w2 = (case server w1 of Some l \<Rightarrow> w1\<lparr>server := Some Closed_listener\<rparr> | None \<Rightarrow> w1)
      in logger INFO Server_stopped w2)"

text \<open>
  \<^verbatim>\<open>WebSocketManager\<close>: its two fields, and beside it the server object that
  \<^verbatim>\<open>run_server\<close> created inside the thread and the lines printed.
\<close>

record system =
  websocket_thread :: "nat option"
  server_running :: bool
  instance_of_server :: world
  stdout :: "string list"

definition stop_server :: "system \<Rightarrow> system" where
  "stop_server m =
     (if server_running m \<and> websocket_thread m \<noteq> None then
        m\<lparr>server_running := False, stdout := stdout m @ [''WebSocket server stopped'']\<rparr>
      else m)"

section \<open>Sequences of registry operations\<close>

text \<open>
  A sequence of \<open>subscribe\<close> and \<open>unsubscribe\<close> calls on one connection, run one after
  the other whatever each call raises (as \<open>handle_message\<close> does, which catches).
\<close>

datatype sub_op = Subscribe string | Unsubscribe string

fun apply_op :: "conn \<Rightarrow> sub_op \<Rightarrow> world \<Rightarrow> world" where
  "apply_op ws (Subscribe s) w = snd (subscribe ws (JStr s) w)"
| "apply_op ws (Unsubscribe s) w = snd (unsubscribe ws (JStr s) w)"

fun run_ops :: "conn \<Rightarrow> sub_op list \<Rightarrow> world \<Rightarrow> world" where
  "run_ops ws [] w = w"
| "run_ops ws (x # xs) w = run_ops ws xs (apply_op ws x w)"

fun op_symbol :: "sub_op \<Rightarrow> string" where
  "op_symbol (Subscribe s) = upper s"
| "op_symbol (Unsubscribe s) = upper s"

fun is_Subscribe :: "sub_op \<Rightarrow> bool" where
  "is_Subscribe (Subscribe s) = True"
| "is_Subscribe (Unsubscribe s) = False"

text \<open>
  The specification's reading of the final set: a symbol is subscribed when the last
  operation of the sequence that names it (after normalisation) is a subscribe, or,
  no operation naming it, when it was subscribed before.
\<close>

definition last_subscribed :: "string set \<Rightarrow> sub_op list \<Rightarrow> string \<Rightarrow> bool" where
  "last_subscribed S0 ops u =
     (case filter (\<lambda>x. op_symbol x = u) ops of
        [] \<Rightarrow> u \<in> S0
      | m # ms \<Rightarrow> is_Subscribe (last (m # ms)))"

text \<open>
  The operation that a well-formed inbound message stands for: a JSON object whose action
  is \<open>subscribe\<close> or \<open>unsubscribe\<close> and whose symbol is a non-empty string.
\<close>

definition message_op :: "env \<Rightarrow> string \<Rightarrow> sub_op option" where
  "message_op e m =
     (case json_loads e m of
        Some (JObj kvs) \<Rightarrow>
          (case map_of kvs ''symbol'' of
             Some (JStr s) \<Rightarrow>
               (if s = [] then None
                else if map_of kvs ''action'' = Some (JStr ''subscribe'') then Some (Subscribe s)
                else if map_of kvs ''action'' = Some (JStr ''unsubscribe'') then Some (Unsubscribe s)
                else None)
           | _ \<Rightarrow> None)
      | _ \<Rightarrow> None)"

section \<open>Summaries of the fetcher and of one pass of the symbol loop\<close>

text \<open>
  What \<open>fetch_stock_data\<close> returns and what it logs are functions of the surroundings
  alone; \<open>pushes\<close> lists the deliveries of the inner loop, and \<open>after_symbol\<close> is the
  state that one pass of the loop over the symbols leaves. The lemmas
  \<open>fetch_stock_data_eq\<close>, \<open>push_all_eq\<close> and \<open>for_symbols_Cons\<close> below tie each
  of them to the code.
\<close>

definition fetch_value :: "env \<Rightarrow> string \<Rightarrow> snapshot option" where
  "fetch_value e symbol =
     (case fetch_try e (requests_get e (trade_url e symbol)) of Inr r \<Rightarrow> r | Inl ex \<Rightarrow> None)"

definition fetch_log :: "env \<Rightarrow> string \<Rightarrow> (level \<times> log_msg) list" where
  "fetch_log e symbol =
     (case fetch_try e (requests_get e (trade_url e symbol)) of
        Inr r \<Rightarrow> [] | Inl ex \<Rightarrow> [(ERROR, Error_fetching symbol ex)])"

definition pushes :: "string \<Rightarrow> snapshot \<Rightarrow> world \<Rightarrow> (conn \<times> out_msg) list" where
  "pushes symbol data w =
     map (\<lambda>p. (fst p, Stock_update symbol data))
       (filter (\<lambda>p. symbol \<in> snd p \<and> fst p \<notin> closed w) (clients w))"

definition after_symbol :: "env \<Rightarrow> string \<Rightarrow> world \<Rightarrow> world" where
  "after_symbol e symbol w =
     w\<lparr>requests := requests w @ [trade_url e symbol],
       log := log w @ fetch_log e symbol,
       stock_data := (case fetch_value e symbol of
                        Some data \<Rightarrow> (stock_data w)(symbol \<mapsto> data) | None \<Rightarrow> stock_data w),
       outbox := outbox w @ (case fetch_value e symbol of
                        Some data \<Rightarrow> pushes symbol data w | None \<Rightarrow> [])\<rparr>"

section \<open>Classification of inbound messages\<close>

text \<open>
  The specification's "fails to parse as the expected structured payload or carries an
  unrecognized action": the text is not JSON, or the JSON value is not an object, or the
  object's action is absent or none of the three recognized ones.
\<close>

definition malformed_or_unknown :: "env \<Rightarrow> string \<Rightarrow> bool" where
  "malformed_or_unknown e m =
     (case json_loads e m of
        None \<Rightarrow> True
      | Some (JObj kvs) \<Rightarrow>
          (case map_of kvs ''action'' of
             None \<Rightarrow> True
           | Some a \<Rightarrow> a \<noteq> JStr ''subscribe'' \<and> a \<noteq> JStr ''unsubscribe'' \<and> a \<noteq> JStr ''ping'')
      | Some _ \<Rightarrow> True)"

text \<open>
  Messages that name a recognized registry action but not a usable symbol. The
  specification's envelope requires the symbol of a subscribe or unsubscribe to be a
  string; \<open>bad_symbol\<close> holds when it is absent, empty or not a string, and
  \<open>silent_symbol\<close> singles out the messages among them whose symbol is absent or
  falsy, which the guard \<^verbatim>\<open>if symbol:\<close> drops.
\<close>

fun sub_or_unsub :: "json \<Rightarrow> (string \<times> json) list option" where
  "sub_or_unsub (JObj kvs) =
     (if map_of kvs ''action'' = Some (JStr ''subscribe'')
         \<or> map_of kvs ''action'' = Some (JStr ''unsubscribe'')
      then Some kvs else None)"
| "sub_or_unsub _ = None"

fun usable_symbol :: "json option \<Rightarrow> bool" where
  "usable_symbol (Some (JStr s)) = (s \<noteq> [])"
| "usable_symbol _ = False"

fun absent_or_falsy :: "json option \<Rightarrow> bool" where
  "absent_or_falsy None = True"
| "absent_or_falsy (Some v) = (\<not> truthy v)"

definition bad_symbol :: "env \<Rightarrow> string \<Rightarrow> bool" where
  "bad_symbol e m =
     (case Option.bind (json_loads e m) sub_or_unsub of
        Some kvs \<Rightarrow> \<not> usable_symbol (map_of kvs ''symbol'')
      | None \<Rightarrow> False)"

definition silent_symbol :: "env \<Rightarrow> string \<Rightarrow> bool" where
  "silent_symbol e m =
     (case Option.bind (json_loads e m) sub_or_unsub of
        Some kvs \<Rightarrow> absent_or_falsy (map_of kvs ''symbol'')
      | None \<Rightarrow> False)"

text \<open>The state without its log: two states with the same \<open>strip_log\<close> differ in the log only.\<close>

definition strip_log :: "world \<Rightarrow> world" where
  "strip_log w = w\<lparr>log := []\<rparr>"

text \<open>The number of times the log records a disconnect, that is a call of \<open>unregister\<close>.\<close>

fun is_disconnect :: "level \<times> log_msg \<Rightarrow> bool" where
  "is_disconnect (l, Client_disconnected n) = True"
| "is_disconnect (l, m) = False"

definition disconnect_count :: "world \<Rightarrow> nat" where
  "disconnect_count w = length (filter is_disconnect (log w))"

section \<open>Sample states\<close>

definition sample_snapshot :: snapshot where
  "sample_snapshot =
     [(''price'', JNum 150), (''size'', JNum 100), (''timestamp'', JNum 1700000000),
      (''exchange'', JNum 4), (''conditions'', JArr []), (''updated_at'', JStr ''2024-01-02T10:00:00'')]"

definition sample_world :: world where
  "sample_world =
     \<lparr>clients = [(1, {''AAPL''}), (2, {})],
      stock_data = [''AAPL'' \<mapsto> sample_snapshot],
      running = True, server = Some Listening, closed = {},
      outbox = [], requests = [], log = []\<rparr>"

definition idle_world :: world where
  "idle_world =
     \<lparr>clients = [(1, {}), (2, {})],
      stock_data = [''AAPL'' \<mapsto> sample_snapshot],
      running = True, server = Some Listening, closed = {},
      outbox = [], requests = [], log = []\<rparr>"

definition sample_env :: env where
  "sample_env =
     \<lparr>POLYGON_API_KEY = ''k'',
      requests_get = (\<lambda>url.
         if url = ''https://api.polygon.io/v2/last/trade/MSFT?apiKey=k''
         then Response 200 (Some (JObj [(''results'', JObj [(''p'', JNum 410), (''s'', JNum 5)])]))
         else if url = ''https://api.polygon.io/v2/last/trade/AAPL?apiKey=k''
         then Response 404 (Some (JObj [(''status'', JStr ''NOT_FOUND'')]))
         else Transport_failure),
      datetime_now = ''2024-01-02T10:00:05'',
      json_loads = (\<lambda>m.
         if m = ''{action: subscribe, symbol: aapl}''
         then Some (JObj [(''action'', JStr ''subscribe''), (''symbol'', JStr ''aapl'')])
         else if m = ''{action: subscribe, symbol: msft}''
         then Some (JObj [(''action'', JStr ''subscribe''), (''symbol'', JStr ''msft'')])
         else if m = ''{action: unsubscribe, symbol: aapl}''
         then Some (JObj [(''action'', JStr ''unsubscribe''), (''symbol'', JStr ''aapl'')])
         else if m = ''{action: subscribe}'' then Some (JObj [(''action'', JStr ''subscribe'')])
         else if m = ''{action: subscribe, symbol: 5}''
         then Some (JObj [(''action'', JStr ''subscribe''), (''symbol'', JNum 5)])
         else if m = ''{action: dance}'' then Some (JObj [(''action'', JStr ''dance'')])
         else if m = ''[1]'' then Some (JArr [JNum 1])
         else None)\<rparr>"

definition busy_world :: world where
  "busy_world =
     \<lparr>clients = [(1, {''AAPL'', ''MSFT''}), (2, {''MSFT''}), (3, {''MSFT''})],
      stock_data = [''AAPL'' \<mapsto> sample_snapshot],
      running = True, server = Some Listening, closed = {3},
      outbox = [], requests = [], log = []\<rparr>"

definition msft_snapshot :: snapshot where
  "msft_snapshot =
     [(''price'', JNum 410), (''size'', JNum 5), (''timestamp'', JNum 0),
      (''exchange'', JNum 0), (''conditions'', JArr []), (''updated_at'', JStr ''2024-01-02T10:00:05'')]"

definition running_system :: system where
  "running_system =
     \<lparr>websocket_thread = Some 1, server_running = True,
      instance_of_server = sample_world, stdout = []\<rparr>"

section \<open>Properties of the registry\<close>

lemma upper_aapl: "upper ''aapl'' = ''AAPL''"
  by code_simp

lemma upper_msft: "upper ''msft'' = ''MSFT''"
  by code_simp

lemma map_entry_id:
  "map_of al k = Some v \<Longrightarrow> f v = v \<Longrightarrow> AList.map_entry k f al = al"
  by (induction al) (auto split: if_splits)

lemma clients_subscribe:
  "map_of (clients w) ws = Some S \<Longrightarrow>
   clients (snd (subscribe ws (JStr s) w)) = AList.map_entry ws (insert (upper s)) (clients w)"
  by (simp add: subscribe_def send_def logger_def Let_def split: option.splits)

lemma clients_unsubscribe:
  "map_of (clients w) ws = Some S \<Longrightarrow>
   clients (snd (unsubscribe ws (JStr s) w)) = AList.map_entry ws (\<lambda>t. t - {upper s}) (clients w)"
  by (simp add: unsubscribe_def logger_def map_entry_id)

lemma subs_apply_op:
  "map_of (clients w) ws = Some S \<Longrightarrow>
   map_of (clients (apply_op ws x w)) ws =
     Some (if is_Subscribe x then insert (op_symbol x) S else S - {op_symbol x})"
  by (cases x) (simp_all add: clients_subscribe clients_unsubscribe map_of_map_entry)

lemma others_apply_op:
  "ws' \<noteq> ws \<Longrightarrow> map_of (clients (apply_op ws x w)) ws' = map_of (clients w) ws'"
proof (cases "map_of (clients w) ws")
  case None
  then show ?thesis by (cases x) (simp_all add: subscribe_def unsubscribe_def)
next
  case (Some S)
  assume "ws' \<noteq> ws"
  with Some show ?thesis
    by (cases x) (simp_all add: clients_subscribe clients_unsubscribe map_of_map_entry)
qed

lemma others_run_ops:
  "ws' \<noteq> ws \<Longrightarrow> map_of (clients (run_ops ws xs w)) ws' = map_of (clients w) ws'"
  by (induction xs arbitrary: w) (simp_all add: others_apply_op)

lemma last_subscribed_Cons:
  "last_subscribed S0 (x # xs) u =
     last_subscribed (if is_Subscribe x then insert (op_symbol x) S0 else S0 - {op_symbol x}) xs u"
  by (cases x) (auto simp: last_subscribed_def split: list.splits)

lemma subs_run_ops:
  "map_of (clients w) ws = Some S0 \<Longrightarrow>
   \<exists>S. map_of (clients (run_ops ws xs w)) ws = Some S \<and> (\<forall>u. u \<in> S \<longleftrightarrow> last_subscribed S0 xs u)"
proof (induction xs arbitrary: w S0)
  case Nil
  then show ?case by (simp add: last_subscribed_def)
next
  case (Cons x xs)
  from subs_apply_op [OF Cons.prems, of x] Cons.IH show ?case
    by (simp only: run_ops.simps last_subscribed_Cons)
qed

text \<open>
  C9. For a connection that is not in the registry, \<open>subscribe\<close> and \<open>unsubscribe\<close>
  raise nothing and return the state as it was (registry, cache, outbox and log), whatever
  the symbol and whether or not a snapshot is cached for it; so does \<open>handle_message\<close>
  on a message whose action is \<open>subscribe\<close> or \<open>unsubscribe\<close>.
\<close>

theorem unregistered_subscribe_noop:
  assumes "map_of (clients w) ws = None"
  shows "subscribe ws symbol w = (None, w)
       \<and> unsubscribe ws symbol w = (None, w)
       \<and> (json_loads e m = Some (JObj kvs)
            \<and> (map_of kvs ''action'' = Some (JStr ''subscribe'')
                 \<or> map_of kvs ''action'' = Some (JStr ''unsubscribe''))
          \<longrightarrow> handle_message e ws m w = (None, w))"
  using assms
  by (auto simp: subscribe_def unsubscribe_def handle_message_def handle_message_body_def)

theorem unregistered_subscribe_noop_witness:
  "map_of (clients sample_world) 7 = None
   \<and> stock_data sample_world ''AAPL'' \<noteq> None
   \<and> subscribe 7 (JStr ''aapl'') sample_world = (None, sample_world)
   \<and> unsubscribe 7 (JStr ''aapl'') sample_world = (None, sample_world)
   \<and> json_loads sample_env ''{action: subscribe, symbol: aapl}''
       = Some (JObj [(''action'', JStr ''subscribe''), (''symbol'', JStr ''aapl'')])
   \<and> handle_message sample_env 7 ''{action: subscribe, symbol: aapl}'' sample_world
       = (None, sample_world)"
proof -
  have h: "map_of (clients sample_world) 7 = None" "stock_data sample_world ''AAPL'' \<noteq> None"
    by (simp_all add: sample_world_def)
  have l: "json_loads sample_env ''{action: subscribe, symbol: aapl}''
       = Some (JObj [(''action'', JStr ''subscribe''), (''symbol'', JStr ''aapl'')])"
    by (simp add: sample_env_def)
  have k: "map_of [(''action'', JStr ''subscribe''), (''symbol'', JStr ''aapl'')] ''action''
       = Some (JStr ''subscribe'')"
    by simp
  from unregistered_subscribe_noop [OF h(1), of "JStr ''aapl''" sample_env
      "''{action: subscribe, symbol: aapl}''"
      "[(''action'', JStr ''subscribe''), (''symbol'', JStr ''aapl'')]"] h l k
  show ?thesis
    by blast
qed

text \<open>
  C5. Unregistering a connection that is absent changes nothing but the log (one more
  line); unregistering twice leaves the registry that unregistering once leaves, and the
  connection is absent afterwards; registering a connection, registered before or not,
  leaves it present with an empty subscription set, leaves every other entry as it was,
  and keeps the keys of the registry distinct. Neither operation has an error result.
\<close>

theorem unregister_register_safe:
  "(map_of (clients w) ws = None \<longrightarrow>
      unregister ws w = logger INFO (Client_disconnected (length (clients w))) w)
   \<and> clients (unregister ws (unregister ws w)) = clients (unregister ws w)
   \<and> map_of (clients (unregister ws w)) ws = None
   \<and> map_of (clients (register ws w)) ws = Some {}
   \<and> (\<forall>ws'. ws' \<noteq> ws \<longrightarrow> map_of (clients (register ws w)) ws' = map_of (clients w) ws')
   \<and> (distinct (map fst (clients w)) \<longrightarrow> distinct (map fst (clients (register ws w))))"
  by (auto simp: unregister_def register_def logger_def Let_def AList.delete_idem
      AList.delete_conv' AList.update_conv' AList.distinct_update)

theorem unregister_register_safe_witness:
  "map_of (clients sample_world) 7 = None
   \<and> clients (unregister 7 sample_world) = clients sample_world
   \<and> stock_data (unregister 7 sample_world) = stock_data sample_world
   \<and> (1::nat) \<noteq> 7
   \<and> map_of (clients (register 7 sample_world)) 1 = Some {''AAPL''}
   \<and> map_of (clients (register 7 sample_world)) 7 = Some {}
   \<and> distinct (map fst (clients sample_world))
   \<and> distinct (map fst (clients (register 7 sample_world)))
   \<and> map_of (clients (register 1 sample_world)) 1 = Some {}
   \<and> distinct (map fst (clients (register 1 sample_world)))"
proof -
  have h: "map_of (clients sample_world) 7 = None" "(1::nat) \<noteq> 7"
    "distinct (map fst (clients sample_world))" "map_of (clients sample_world) 1 = Some {''AAPL''}"
    by (simp_all add: sample_world_def)
  note T = unregister_register_safe [of sample_world 7]
  from T h(1) have "unregister 7 sample_world
      = logger INFO (Client_disconnected (length (clients sample_world))) sample_world"
    by blast
  then have a: "clients (unregister 7 sample_world) = clients sample_world"
    "stock_data (unregister 7 sample_world) = stock_data sample_world"
    by (simp_all add: logger_def)
  from T h have b: "map_of (clients (register 7 sample_world)) 1 = Some {''AAPL''}"
    by metis
  from unregister_register_safe [of sample_world 1] h(3)
  have c: "map_of (clients (register 1 sample_world)) 1 = Some {}"
    "distinct (map fst (clients (register 1 sample_world)))"
    by blast+
  from T h a b c show ?thesis
    by blast
qed

section \<open>Properties of the broadcast cycle\<close>

lemma all_symbols_fold:
  "fold (\<lambda>subscriptions acc. acc \<union> subscriptions) xs A = A \<union> \<Union> (set xs)"
  by (induction xs arbitrary: A) auto

lemma all_symbols_Union: "all_symbols w = \<Union> (snd ` set (clients w))"
  by (simp add: all_symbols_def all_symbols_fold)

text \<open>
  C4. In a cycle that starts with the union of all subscription sets empty, whatever the
  outside would answer, the URL log (the calls to the fetcher) and the cache are as
  before: the cycle returns the state unchanged and raises nothing.
\<close>

theorem empty_union_no_fetch:
  assumes "\<Union> (snd ` set (clients w)) = {}"
    and "iterates (iter (all_symbols w)) (all_symbols w)"
  shows "requests (snd (broadcast_cycle env_at iter w)) = requests w
       \<and> stock_data (snd (broadcast_cycle env_at iter w)) = stock_data w
       \<and> broadcast_cycle env_at iter w = (None, w)"
  using assms by (simp add: broadcast_cycle_def all_symbols_Union iterates_def)

theorem empty_union_no_fetch_witness:
  "\<Union> (snd ` set (clients idle_world)) = {}
   \<and> iterates ((\<lambda>S. []) (all_symbols idle_world)) (all_symbols idle_world)
   \<and> requests (snd (broadcast_cycle (\<lambda>symbol. sample_env) (\<lambda>S. []) idle_world)) = []
   \<and> broadcast_cycle (\<lambda>symbol. sample_env) (\<lambda>S. []) idle_world = (None, idle_world)"
proof -
  have h: "\<Union> (snd ` set (clients idle_world)) = {}"
    by (simp add: idle_world_def)
  have i: "iterates ((\<lambda>S. []) (all_symbols idle_world)) (all_symbols idle_world)"
    by (simp add: iterates_def all_symbols_def idle_world_def)
  have r: "requests idle_world = []"
    by (simp add: idle_world_def)
  from empty_union_no_fetch [OF h i, of "\<lambda>symbol. sample_env"] h i r show ?thesis
    by simp
qed

section \<open>The fetcher and the symbol loop, summarised\<close>

lemma fetch_stock_data_eq:
  "fetch_stock_data e symbol w =
     (fetch_value e symbol,
      w\<lparr>requests := requests w @ [trade_url e symbol], log := log w @ fetch_log e symbol\<rparr>)"
  by (simp add: fetch_stock_data_def fetch_value_def fetch_log_def logger_def Let_def
      split: sum.splits)

lemma fetch_try_Some_iff:
  "fetch_try e outcome = Inr (Some snap) \<longleftrightarrow>
     (\<exists>body result. outcome = Response 200 (Some (JObj body))
        \<and> map_of body ''results'' = Some (JObj result) \<and> result \<noteq> []
        \<and> snap = [(''price'', case map_of result ''p'' of Some v \<Rightarrow> v | None \<Rightarrow> JNum 0),
                  (''size'', case map_of result ''s'' of Some v \<Rightarrow> v | None \<Rightarrow> JNum 0),
                  (''timestamp'', case map_of result ''t'' of Some v \<Rightarrow> v | None \<Rightarrow> JNum 0),
                  (''exchange'', case map_of result ''x'' of Some v \<Rightarrow> v | None \<Rightarrow> JNum 0),
                  (''conditions'', case map_of result ''c'' of Some v \<Rightarrow> v | None \<Rightarrow> JArr []),
                  (''updated_at'', JStr (datetime_now e))])"
proof (cases outcome)
  case Transport_failure
  then show ?thesis by (simp add: fetch_try_def)
next
  case (Response code body)
  show ?thesis
  proof (cases body)
    case None
    with Response show ?thesis by (simp add: fetch_try_def)
  next
    case (Some data)
    show ?thesis
    proof (cases data)
      case (JObj kvs)
      show ?thesis
      proof (cases "map_of kvs ''results''")
        case None
        with Response Some JObj show ?thesis by (simp add: fetch_try_def)
      next
        case (Some result)
        with Response \<open>body = Some data\<close> JObj show ?thesis
          by (cases result) (auto simp: fetch_try_def)
      qed
    qed (use Response Some in \<open>simp_all add: fetch_try_def\<close>)
  qed
qed

lemma push_all_eq:
  "push_all symbol data cl w =
     (None, w\<lparr>outbox := outbox w @ map (\<lambda>p. (fst p, Stock_update symbol data))
       (filter (\<lambda>p. symbol \<in> snd p \<and> fst p \<notin> closed w) cl)\<rparr>)"
  by (induction cl arbitrary: w) (auto simp: send_def)


lemma fetch_value_nonempty: "fetch_value e symbol = Some data \<Longrightarrow> data \<noteq> []"
  by (auto simp: fetch_value_def fetch_try_Some_iff split: sum.splits)

lemma for_symbols_Cons:
  "for_symbols env_at (symbol # rest) w = for_symbols env_at rest (after_symbol (env_at symbol) symbol w)"
proof (cases "fetch_value (env_at symbol) symbol")
  case None
  then show ?thesis
    by (simp add: fetch_stock_data_eq after_symbol_def)
next
  case (Some data)
  then have "data \<noteq> []" by (rule fetch_value_nonempty)
  with Some show ?thesis
    by (simp add: fetch_stock_data_eq after_symbol_def push_all_eq pushes_def)
qed

lemma after_symbol_fields:
  "clients (after_symbol e s w) = clients w"
  "closed (after_symbol e s w) = closed w"
  "running (after_symbol e s w) = running w"
  "server (after_symbol e s w) = server w"
  "requests (after_symbol e s w) = requests w @ [trade_url e s]"
  by (simp_all add: after_symbol_def)

lemma pushes_after_symbol: "pushes s d (after_symbol e s' w) = pushes s d w"
  by (simp add: pushes_def after_symbol_fields)

lemma for_symbols_None: "fst (for_symbols env_at order w) = None"
  by (induction order arbitrary: w) (simp_all add: for_symbols_Cons del: for_symbols.simps(2))

lemma for_symbols_fields:
  "clients (snd (for_symbols env_at order w)) = clients w
   \<and> closed (snd (for_symbols env_at order w)) = closed w
   \<and> running (snd (for_symbols env_at order w)) = running w
   \<and> server (snd (for_symbols env_at order w)) = server w"
  by (induction order arbitrary: w)
     (simp_all add: for_symbols_Cons after_symbol_fields del: for_symbols.simps(2))

lemma for_symbols_requests:
  "requests (snd (for_symbols env_at order w)) =
     requests w @ map (\<lambda>symbol. trade_url (env_at symbol) symbol) order"
  by (induction order arbitrary: w)
     (simp_all add: for_symbols_Cons after_symbol_fields del: for_symbols.simps(2))

lemma for_symbols_stock_data:
  "stock_data (snd (for_symbols env_at order w)) s =
     (if s \<in> set order then
        (case fetch_value (env_at s) s of Some d \<Rightarrow> Some d | None \<Rightarrow> stock_data w s)
      else stock_data w s)"
proof (induction order arbitrary: w)
  case Nil
  then show ?case by simp
next
  case (Cons x xs)
  show ?case
    by (simp add: for_symbols_Cons Cons.IH del: for_symbols.simps(2))
       (simp add: after_symbol_def split: option.splits)
qed

lemma for_symbols_outbox:
  "outbox (snd (for_symbols env_at order w)) =
     outbox w @ concat (map (\<lambda>s. case fetch_value (env_at s) s of
                                    Some d \<Rightarrow> pushes s d w | None \<Rightarrow> []) order)"
proof (induction order arbitrary: w)
  case Nil
  then show ?case by simp
next
  case (Cons x xs)
  have "outbox (after_symbol (env_at x) x w) =
          outbox w @ (case fetch_value (env_at x) x of Some d \<Rightarrow> pushes x d w | None \<Rightarrow> [])"
    by (simp add: after_symbol_def)
  then show ?case
    by (simp add: for_symbols_Cons Cons.IH pushes_after_symbol del: for_symbols.simps(2)
        cong: option.case_cong)
qed

lemma fst_fetch_stock_data: "fst (fetch_stock_data e symbol w) = fetch_value e symbol"
  by (simp add: fetch_stock_data_eq)

lemma fetch_value_Some_iff:
  "fetch_value e symbol = Some snap \<longleftrightarrow>
     fetch_try e (requests_get e (trade_url e symbol)) = Inr (Some snap)"
  by (simp add: fetch_value_def split: sum.splits)

lemma in_pushes:
  "(ws, m) \<in> set (pushes s d w) \<longleftrightarrow>
     m = Stock_update s d \<and> ws \<notin> closed w \<and> (\<exists>subs. (ws, subs) \<in> set (clients w) \<and> s \<in> subs)"
  by (auto simp: pushes_def image_iff)

lemma running_loops: "running w \<Longrightarrow> broadcast_updates rounds w = None"
proof (induction rounds arbitrary: w)
  case Nil
  then show ?case by simp
next
  case (Cons r rounds)
  obtain env_at iter where r: "r = (env_at, iter)" by (cases r)
  have "fst (broadcast_cycle env_at iter w) = None"
    and "running (snd (broadcast_cycle env_at iter w))"
    using Cons.prems by (simp_all add: broadcast_cycle_def for_symbols_None for_symbols_fields)
  with Cons.IH [of "snd (broadcast_cycle env_at iter w)"] Cons.prems r show ?case
    by (cases "broadcast_cycle env_at iter w") simp
qed

lemma sample_get_msft:
  "requests_get sample_env (trade_url sample_env ''MSFT'') =
     Response 200 (Some (JObj [(''results'', JObj [(''p'', JNum 410), (''s'', JNum 5)])]))"
  by (simp add: sample_env_def trade_url_def)

lemma sample_get_aapl:
  "requests_get sample_env (trade_url sample_env ''AAPL'') =
     Response 404 (Some (JObj [(''status'', JStr ''NOT_FOUND'')]))"
  by (simp add: sample_env_def trade_url_def)

lemma sample_fetch_msft: "fst (fetch_stock_data sample_env ''MSFT'' w) = Some msft_snapshot"
  by (simp add: fetch_stock_data_def Let_def sample_get_msft fetch_try_def msft_snapshot_def)
     (simp add: sample_env_def)

lemma sample_fetch_aapl: "fst (fetch_stock_data sample_env ''AAPL'' w) = None"
  by (simp add: fetch_stock_data_def Let_def sample_get_aapl fetch_try_def)

lemma sample_iterates:
  "iterates ((\<lambda>S. [''AAPL'', ''MSFT'']) (all_symbols busy_world)) (all_symbols busy_world)"
  by (auto simp: iterates_def all_symbols_def busy_world_def)

section \<open>Properties of the fetcher\<close>

lemma broadcast_cycle_clients: "clients (snd (broadcast_cycle env_at iter w)) = clients w"
  by (simp add: broadcast_cycle_def for_symbols_fields)

lemma broadcast_cycle_all_symbols: "all_symbols (snd (broadcast_cycle env_at iter w)) = all_symbols w"
  by (simp add: all_symbols_def broadcast_cycle_clients)

lemma broadcast_cycle_requests:
  "requests (snd (broadcast_cycle env_at iter w)) =
     requests w @ map (\<lambda>s. trade_url (env_at s) s) (iter (all_symbols w))"
  by (simp add: broadcast_cycle_def for_symbols_requests)

lemma distinct_count_list: "distinct xs \<Longrightarrow> x \<in> set xs \<Longrightarrow> count_list xs x = 1"
  by (induction xs) (auto simp: count_list_0_iff)

lemma iterates_count: "iterates xs S \<Longrightarrow> x \<in> S \<Longrightarrow> count_list xs x = 1"
  by (simp add: iterates_def distinct_count_list)

text \<open>
  C6. One call of \<open>fetch_stock_data\<close> appends exactly one URL to the log of outbound
  requests, that of the symbol; it returns a snapshot exactly when the answer has status
  200 and a JSON object whose \<open>results\<close> entry is a non-empty object, the snapshot is
  never the empty dict (which the scheduler would take for a failure), and the call has
  no exception among its results (a transport failure, another status, a body that is
  not JSON, missing or empty results all give \<open>None\<close>). A pass of the scheduler requests
  each symbol of its iteration once, failed or not, raises nothing, leaves the registry as
  it was, caches what was fetched and leaves the cache entry of a failed symbol alone.
  The next pass of the loop therefore runs over the same symbols: the requests of two
  consecutive passes are those of the first followed by those of the second, and a
  symbol whose fetch failed in the first pass, requested once there, is still
  subscribed and is requested again, once, in the second.
\<close>

theorem fetch_once_snapshot_iff_success:
  "requests (snd (fetch_stock_data e symbol w)) = requests w @ [trade_url e symbol]
   \<and> (fst (fetch_stock_data e symbol w) \<noteq> None \<longleftrightarrow>
        (\<exists>body result. requests_get e (trade_url e symbol) = Response 200 (Some (JObj body))
           \<and> map_of body ''results'' = Some (JObj result) \<and> result \<noteq> []))
   \<and> fst (fetch_stock_data e symbol w) \<noteq> Some []
   \<and> requests (snd (broadcast_cycle env_at iter w)) =
        requests w @ map (\<lambda>s. trade_url (env_at s) s) (iter (all_symbols w))
   \<and> fst (broadcast_cycle env_at iter w) = None
   \<and> clients (snd (broadcast_cycle env_at iter w)) = clients w
   \<and> all_symbols (snd (broadcast_cycle env_at iter w)) = all_symbols w
   \<and> (\<forall>s \<in> set (iter (all_symbols w)).
         stock_data (snd (broadcast_cycle env_at iter w)) s =
           (case fst (fetch_stock_data (env_at s) s w) of
              Some d \<Rightarrow> Some d | None \<Rightarrow> stock_data w s))
   \<and> requests (snd (broadcast_cycle env_at' iter' (snd (broadcast_cycle env_at iter w)))) =
        requests w @ map (\<lambda>s. trade_url (env_at s) s) (iter (all_symbols w))
                   @ map (\<lambda>s. trade_url (env_at' s) s) (iter' (all_symbols w))
   \<and> (running w \<longrightarrow>
        broadcast_updates ((env_at, iter) # (env_at', iter') # rounds) w =
          broadcast_updates rounds
            (snd (broadcast_cycle env_at' iter' (snd (broadcast_cycle env_at iter w)))))
   \<and> (iterates (iter (all_symbols w)) (all_symbols w)
        \<and> iterates (iter' (all_symbols w)) (all_symbols w)
        \<and> A \<in> all_symbols w \<and> fst (fetch_stock_data (env_at A) A w) = None
      \<longrightarrow> count_list (iter (all_symbols w)) A = 1
          \<and> stock_data (snd (broadcast_cycle env_at iter w)) A = stock_data w A
          \<and> (\<exists>subs. subs \<in> snd ` set (clients (snd (broadcast_cycle env_at iter w))) \<and> A \<in> subs)
          \<and> count_list (iter' (all_symbols (snd (broadcast_cycle env_at iter w)))) A = 1
          \<and> trade_url (env_at' A) A
               \<in> set (drop (length (requests (snd (broadcast_cycle env_at iter w))))
                     (requests (snd (broadcast_cycle env_at' iter' (snd (broadcast_cycle env_at iter w)))))))"
proof (intro conjI)
  let ?w1 = "snd (broadcast_cycle env_at iter w)"
  let ?w2 = "snd (broadcast_cycle env_at' iter' ?w1)"
  show "requests (snd (fetch_stock_data e symbol w)) = requests w @ [trade_url e symbol]"
    by (simp add: fetch_stock_data_eq)
  show "fst (fetch_stock_data e symbol w) \<noteq> None \<longleftrightarrow>
        (\<exists>body result. requests_get e (trade_url e symbol) = Response 200 (Some (JObj body))
           \<and> map_of body ''results'' = Some (JObj result) \<and> result \<noteq> [])"
    unfolding fst_fetch_stock_data
    by (auto simp: fetch_value_Some_iff fetch_try_Some_iff)
  show "fst (fetch_stock_data e symbol w) \<noteq> Some []"
    using fetch_value_nonempty [of e symbol "[]"] by (auto simp: fst_fetch_stock_data)
  show "requests ?w1 = requests w @ map (\<lambda>s. trade_url (env_at s) s) (iter (all_symbols w))"
    by (rule broadcast_cycle_requests)
  show "fst (broadcast_cycle env_at iter w) = None"
    by (simp add: broadcast_cycle_def for_symbols_None)
  show "clients ?w1 = clients w"
    by (rule broadcast_cycle_clients)
  show "all_symbols ?w1 = all_symbols w"
    by (rule broadcast_cycle_all_symbols)
  show cache: "\<forall>s \<in> set (iter (all_symbols w)).
         stock_data ?w1 s =
           (case fst (fetch_stock_data (env_at s) s w) of
              Some d \<Rightarrow> Some d | None \<Rightarrow> stock_data w s)"
    by (simp add: broadcast_cycle_def for_symbols_stock_data fst_fetch_stock_data)
  show two: "requests ?w2 =
        requests w @ map (\<lambda>s. trade_url (env_at s) s) (iter (all_symbols w))
                   @ map (\<lambda>s. trade_url (env_at' s) s) (iter' (all_symbols w))"
    by (simp add: broadcast_cycle_requests broadcast_cycle_all_symbols)
  show "running w \<longrightarrow>
        broadcast_updates ((env_at, iter) # (env_at', iter') # rounds) w =
          broadcast_updates rounds ?w2"
  proof
    assume r: "running w"
    have n1: "fst (broadcast_cycle env_at iter w) = None"
      and n2: "fst (broadcast_cycle env_at' iter' ?w1) = None"
      and r1: "running ?w1"
      using r by (simp_all add: broadcast_cycle_def for_symbols_None for_symbols_fields)
    from r n1 have "broadcast_updates ((env_at, iter) # (env_at', iter') # rounds) w =
        broadcast_updates ((env_at', iter') # rounds) ?w1"
      by (cases "broadcast_cycle env_at iter w") simp
    also from r1 n2 have "\<dots> = broadcast_updates rounds ?w2"
      by (cases "broadcast_cycle env_at' iter' ?w1") simp
    finally show "broadcast_updates ((env_at, iter) # (env_at', iter') # rounds) w =
          broadcast_updates rounds ?w2" .
  qed
  show "iterates (iter (all_symbols w)) (all_symbols w)
        \<and> iterates (iter' (all_symbols w)) (all_symbols w)
        \<and> A \<in> all_symbols w \<and> fst (fetch_stock_data (env_at A) A w) = None
      \<longrightarrow> count_list (iter (all_symbols w)) A = 1
          \<and> stock_data ?w1 A = stock_data w A
          \<and> (\<exists>subs. subs \<in> snd ` set (clients ?w1) \<and> A \<in> subs)
          \<and> count_list (iter' (all_symbols ?w1)) A = 1
          \<and> trade_url (env_at' A) A \<in> set (drop (length (requests ?w1)) (requests ?w2))"
  proof
    assume h: "iterates (iter (all_symbols w)) (all_symbols w)
        \<and> iterates (iter' (all_symbols w)) (all_symbols w)
        \<and> A \<in> all_symbols w \<and> fst (fetch_stock_data (env_at A) A w) = None"
    then have c1: "count_list (iter (all_symbols w)) A = 1"
      and c2: "count_list (iter' (all_symbols ?w1)) A = 1"
      using iterates_count [of "iter (all_symbols w)" "all_symbols w" A]
        iterates_count [of "iter' (all_symbols w)" "all_symbols w" A]
      by (simp_all add: broadcast_cycle_all_symbols)
    from h have m: "A \<in> set (iter (all_symbols w))" "A \<in> set (iter' (all_symbols w))"
      by (simp_all add: iterates_def)
    from cache m(1) h have s: "stock_data ?w1 A = stock_data w A"
      by simp
    from h have "\<exists>subs. subs \<in> snd ` set (clients w) \<and> A \<in> subs"
      by (auto simp: all_symbols_Union)
    then have k: "\<exists>subs. subs \<in> snd ` set (clients ?w1) \<and> A \<in> subs"
      by (simp only: broadcast_cycle_clients)
    have "drop (length (requests ?w1)) (requests ?w2) =
            map (\<lambda>s. trade_url (env_at' s) s) (iter' (all_symbols w))"
      by (simp add: broadcast_cycle_requests broadcast_cycle_all_symbols)
    with m(2) have u: "trade_url (env_at' A) A \<in> set (drop (length (requests ?w1)) (requests ?w2))"
      by auto
    from c1 s k c2 u show "count_list (iter (all_symbols w)) A = 1
          \<and> stock_data ?w1 A = stock_data w A
          \<and> (\<exists>subs. subs \<in> snd ` set (clients ?w1) \<and> A \<in> subs)
          \<and> count_list (iter' (all_symbols ?w1)) A = 1
          \<and> trade_url (env_at' A) A \<in> set (drop (length (requests ?w1)) (requests ?w2))"
      by (intro conjI)
  qed
qed


theorem fetch_once_snapshot_iff_success_witness:
  "requests (snd (fetch_stock_data sample_env ''MSFT'' busy_world))
     = [''https://api.polygon.io/v2/last/trade/MSFT?apiKey=k'']
   \<and> fst (fetch_stock_data sample_env ''MSFT'' busy_world) \<noteq> None
   \<and> fst (fetch_stock_data sample_env ''AAPL'' busy_world) = None
   \<and> requests (snd (broadcast_cycle (\<lambda>s. sample_env) (\<lambda>S. [''AAPL'', ''MSFT'']) busy_world))
     = [''https://api.polygon.io/v2/last/trade/AAPL?apiKey=k'',
        ''https://api.polygon.io/v2/last/trade/MSFT?apiKey=k'']
   \<and> iterates ((\<lambda>S. [''AAPL'', ''MSFT'']) (all_symbols busy_world)) (all_symbols busy_world)
   \<and> ''AAPL'' \<in> all_symbols busy_world
   \<and> running busy_world
   \<and> ''AAPL'' \<in> set ((\<lambda>S. [''AAPL'', ''MSFT'']) (all_symbols busy_world))
   \<and> stock_data (snd (broadcast_cycle (\<lambda>s. sample_env) (\<lambda>S. [''AAPL'', ''MSFT'']) busy_world)) ''AAPL''
       = Some sample_snapshot
   \<and> clients (snd (broadcast_cycle (\<lambda>s. sample_env) (\<lambda>S. [''AAPL'', ''MSFT'']) busy_world))
       = clients busy_world
   \<and> requests (snd (broadcast_cycle (\<lambda>s. sample_env) (\<lambda>S. [''AAPL'', ''MSFT''])
        (snd (broadcast_cycle (\<lambda>s. sample_env) (\<lambda>S. [''AAPL'', ''MSFT'']) busy_world))))
     = [''https://api.polygon.io/v2/last/trade/AAPL?apiKey=k'',
        ''https://api.polygon.io/v2/last/trade/MSFT?apiKey=k'',
        ''https://api.polygon.io/v2/last/trade/AAPL?apiKey=k'',
        ''https://api.polygon.io/v2/last/trade/MSFT?apiKey=k'']
   \<and> ''https://api.polygon.io/v2/last/trade/AAPL?apiKey=k''
       \<in> set (drop (length (requests (snd (broadcast_cycle (\<lambda>s. sample_env) (\<lambda>S. [''AAPL'', ''MSFT'']) busy_world))))
          (requests (snd (broadcast_cycle (\<lambda>s. sample_env) (\<lambda>S. [''AAPL'', ''MSFT''])
             (snd (broadcast_cycle (\<lambda>s. sample_env) (\<lambda>S. [''AAPL'', ''MSFT'']) busy_world))))))
   \<and> broadcast_updates [(\<lambda>s. sample_env, \<lambda>S. [''AAPL'', ''MSFT'']), (\<lambda>s. sample_env, \<lambda>S. [''AAPL'', ''MSFT''])]
        busy_world
       = broadcast_updates [] (snd (broadcast_cycle (\<lambda>s. sample_env) (\<lambda>S. [''AAPL'', ''MSFT''])
             (snd (broadcast_cycle (\<lambda>s. sample_env) (\<lambda>S. [''AAPL'', ''MSFT'']) busy_world))))"
proof -
  let ?it = "\<lambda>S::string set. [''AAPL'', ''MSFT'']"
  let ?en = "\<lambda>s::string. sample_env"
  let ?w1 = "snd (broadcast_cycle ?en ?it busy_world)"
  let ?w2 = "snd (broadcast_cycle ?en ?it ?w1)"
  note M = fetch_once_snapshot_iff_success [of sample_env "''MSFT''" busy_world ?en ?it ?en ?it "[]" "''AAPL''"]
  note A = fetch_once_snapshot_iff_success [of sample_env "''AAPL''" busy_world ?en ?it ?en ?it "[]" "''AAPL''"]
  note M1 = M [THEN conjunct1]
  note M2 = M [THEN conjunct2, THEN conjunct1]
  note A2 = A [THEN conjunct2, THEN conjunct1]
  note M4 = M [THEN conjunct2, THEN conjunct2, THEN conjunct2, THEN conjunct1]
  note M6 = M [THEN conjunct2, THEN conjunct2, THEN conjunct2, THEN conjunct2, THEN conjunct2,
      THEN conjunct1]
  note M8 = M [THEN conjunct2, THEN conjunct2, THEN conjunct2, THEN conjunct2, THEN conjunct2,
      THEN conjunct2, THEN conjunct2, THEN conjunct1]
  note M9 = M [THEN conjunct2, THEN conjunct2, THEN conjunct2, THEN conjunct2, THEN conjunct2,
      THEN conjunct2, THEN conjunct2, THEN conjunct2, THEN conjunct1]
  note M10 = M [THEN conjunct2, THEN conjunct2, THEN conjunct2, THEN conjunct2, THEN conjunct2,
      THEN conjunct2, THEN conjunct2, THEN conjunct2, THEN conjunct2, THEN conjunct1]
  note M11 = M [THEN conjunct2, THEN conjunct2, THEN conjunct2, THEN conjunct2, THEN conjunct2,
      THEN conjunct2, THEN conjunct2, THEN conjunct2, THEN conjunct2, THEN conjunct2]
  have r: "requests busy_world = []" and run: "running busy_world"
    and sd: "stock_data busy_world ''AAPL'' = Some sample_snapshot"
    by (simp_all add: busy_world_def)
  have u: "trade_url sample_env ''MSFT'' = ''https://api.polygon.io/v2/last/trade/MSFT?apiKey=k''"
    "trade_url sample_env ''AAPL'' = ''https://api.polygon.io/v2/last/trade/AAPL?apiKey=k''"
    by (simp_all add: trade_url_def sample_env_def)
  have mem: "''AAPL'' \<in> all_symbols busy_world"
    by (simp add: all_symbols_def busy_world_def)
  have mem': "''AAPL'' \<in> set (?it (all_symbols busy_world))"
    by simp
  from M1 have a: "requests (snd (fetch_stock_data sample_env ''MSFT'' busy_world))
     = [''https://api.polygon.io/v2/last/trade/MSFT?apiKey=k'']"
    by (simp add: r u)
  from M2 have b: "fst (fetch_stock_data sample_env ''MSFT'' busy_world) \<noteq> None"
    by (simp add: sample_get_msft)
  from A2 have c: "fst (fetch_stock_data sample_env ''AAPL'' busy_world) = None"
    by (simp add: sample_get_aapl)
  from M4 have d: "requests ?w1
     = [''https://api.polygon.io/v2/last/trade/AAPL?apiKey=k'',
        ''https://api.polygon.io/v2/last/trade/MSFT?apiKey=k'']"
    by (simp add: r u)
  from M9 have e: "requests ?w2
     = [''https://api.polygon.io/v2/last/trade/AAPL?apiKey=k'',
        ''https://api.polygon.io/v2/last/trade/MSFT?apiKey=k'',
        ''https://api.polygon.io/v2/last/trade/AAPL?apiKey=k'',
        ''https://api.polygon.io/v2/last/trade/MSFT?apiKey=k'']"
    by (simp add: r u)
  have f: "broadcast_updates [(?en, ?it), (?en, ?it)] busy_world = broadcast_updates [] ?w2"
    by (rule M10 [rule_format, OF run])
  have h: "iterates (?it (all_symbols busy_world)) (all_symbols busy_world)
        \<and> iterates (?it (all_symbols busy_world)) (all_symbols busy_world)
        \<and> ''AAPL'' \<in> all_symbols busy_world \<and> fst (fetch_stock_data (?en ''AAPL'') ''AAPL'' busy_world) = None"
    using sample_iterates mem c by (intro conjI)
  note C = M11 [rule_format, OF h]
  from C sd have g: "stock_data ?w1 ''AAPL'' = Some sample_snapshot"
    by simp
  from C u(2) have i: "''https://api.polygon.io/v2/last/trade/AAPL?apiKey=k''
       \<in> set (drop (length (requests ?w1)) (requests ?w2))"
    by simp
  from a b c d sample_iterates mem run mem' g M6 e i f show ?thesis
    by (intro conjI)
qed

text \<open>
  C10. A snapshot that \<open>fetch_stock_data\<close> returns has the six keys price, size,
  timestamp, exchange, conditions, updated_at, in this order; \<open>updated_at\<close> is the clock
  reading of the call; each of the other five is the value of the upstream key
  (\<open>p\<close>, \<open>s\<close>, \<open>t\<close>, \<open>x\<close>, \<open>c\<close>) when the result has it, and else the default: the
  number 0, and the empty list for conditions.
\<close>

theorem snapshot_fields_defaults:
  assumes "fst (fetch_stock_data e symbol w) = Some snap"
  shows "map fst snap = [''price'', ''size'', ''timestamp'', ''exchange'', ''conditions'', ''updated_at'']
       \<and> map_of snap ''updated_at'' = Some (JStr (datetime_now e))
       \<and> (\<exists>body result.
             requests_get e (trade_url e symbol) = Response 200 (Some (JObj body))
           \<and> map_of body ''results'' = Some (JObj result)
           \<and> map_of snap ''price'' = Some (case map_of result ''p'' of Some v \<Rightarrow> v | None \<Rightarrow> JNum 0)
           \<and> map_of snap ''size'' = Some (case map_of result ''s'' of Some v \<Rightarrow> v | None \<Rightarrow> JNum 0)
           \<and> map_of snap ''timestamp'' = Some (case map_of result ''t'' of Some v \<Rightarrow> v | None \<Rightarrow> JNum 0)
           \<and> map_of snap ''exchange'' = Some (case map_of result ''x'' of Some v \<Rightarrow> v | None \<Rightarrow> JNum 0)
           \<and> map_of snap ''conditions'' = Some (case map_of result ''c'' of Some v \<Rightarrow> v | None \<Rightarrow> JArr []))"
proof -
  from assms have "fetch_try e (requests_get e (trade_url e symbol)) = Inr (Some snap)"
    by (simp add: fst_fetch_stock_data fetch_value_Some_iff)
  then obtain body result where
    "requests_get e (trade_url e symbol) = Response 200 (Some (JObj body))"
    "map_of body ''results'' = Some (JObj result)"
    "snap = [(''price'', case map_of result ''p'' of Some v \<Rightarrow> v | None \<Rightarrow> JNum 0),
             (''size'', case map_of result ''s'' of Some v \<Rightarrow> v | None \<Rightarrow> JNum 0),
             (''timestamp'', case map_of result ''t'' of Some v \<Rightarrow> v | None \<Rightarrow> JNum 0),
             (''exchange'', case map_of result ''x'' of Some v \<Rightarrow> v | None \<Rightarrow> JNum 0),
             (''conditions'', case map_of result ''c'' of Some v \<Rightarrow> v | None \<Rightarrow> JArr []),
             (''updated_at'', JStr (datetime_now e))]"
    unfolding fetch_try_Some_iff by blast
  then show ?thesis
    by simp
qed

theorem snapshot_fields_defaults_witness:
  "fst (fetch_stock_data sample_env ''MSFT'' busy_world) = Some msft_snapshot
   \<and> map fst msft_snapshot = [''price'', ''size'', ''timestamp'', ''exchange'', ''conditions'', ''updated_at'']
   \<and> map_of msft_snapshot ''updated_at'' = Some (JStr (datetime_now sample_env))
   \<and> map_of msft_snapshot ''price'' = Some (JNum 410)
   \<and> map_of msft_snapshot ''timestamp'' = Some (JNum 0)
   \<and> map_of msft_snapshot ''conditions'' = Some (JArr [])"
proof -
  have h: "fst (fetch_stock_data sample_env ''MSFT'' busy_world) = Some msft_snapshot"
    by (rule sample_fetch_msft)
  note T = snapshot_fields_defaults [OF h]
  then obtain body result where
    g: "requests_get sample_env (trade_url sample_env ''MSFT'') = Response 200 (Some (JObj body))"
    and b: "map_of body ''results'' = Some (JObj result)"
    and p: "map_of msft_snapshot ''price'' = Some (case map_of result ''p'' of Some v \<Rightarrow> v | None \<Rightarrow> JNum 0)"
    and t: "map_of msft_snapshot ''timestamp'' = Some (case map_of result ''t'' of Some v \<Rightarrow> v | None \<Rightarrow> JNum 0)"
    and c: "map_of msft_snapshot ''conditions'' = Some (case map_of result ''c'' of Some v \<Rightarrow> v | None \<Rightarrow> JArr [])"
    by blast
  from g b have "result = [(''p'', JNum 410), (''s'', JNum 5)]"
    by (auto simp: sample_get_msft)
  with p t c have "map_of msft_snapshot ''price'' = Some (JNum 410)"
    "map_of msft_snapshot ''timestamp'' = Some (JNum 0)"
    "map_of msft_snapshot ''conditions'' = Some (JArr [])"
    by simp_all
  with h T show ?thesis
    by blast
qed

section \<open>Fault isolation in a cycle\<close>

text \<open>
  C2. In a cycle over a registry in which the distinct symbols \<open>A\<close> and \<open>B\<close> are both
  subscribed, where the fetch of \<open>A\<close> fails and the fetch of \<open>B\<close> returns \<open>data\<close>:
  the cycle raises nothing; the cache holds \<open>data\<close> for \<open>B\<close> afterwards and every
  subscriber of \<open>B\<close> whose transport is open has the push of \<open>data\<close> in the outbox;
  the cache entry of \<open>A\<close> is as before; every message the cycle delivered is a
  stock update of a symbol other than \<open>A\<close>, carrying that symbol's fetched snapshot, to
  one of its subscribers (so nothing about the failure reaches a client); the flag
  \<open>running\<close> is unchanged, and the loop goes on to its next pass.
\<close>

theorem fetch_failure_isolated:
  assumes "iterates (iter (all_symbols w)) (all_symbols w)"
    and "A \<in> all_symbols w" and "B \<in> all_symbols w" and "A \<noteq> B"
    and "fst (fetch_stock_data (env_at A) A w) = None"
    and "fst (fetch_stock_data (env_at B) B w) = Some data"
  shows "fst (broadcast_cycle env_at iter w) = None
       \<and> stock_data (snd (broadcast_cycle env_at iter w)) B = Some data
       \<and> (\<forall>ws subs. (ws, subs) \<in> set (clients w) \<and> B \<in> subs \<and> ws \<notin> closed w \<longrightarrow>
             (ws, Stock_update B data) \<in> set (outbox (snd (broadcast_cycle env_at iter w))))
       \<and> stock_data (snd (broadcast_cycle env_at iter w)) A = stock_data w A
       \<and> (\<forall>ws m. (ws, m) \<in> set (drop (length (outbox w)) (outbox (snd (broadcast_cycle env_at iter w)))) \<longrightarrow>
             (\<exists>s d. m = Stock_update s d \<and> s \<noteq> A
                  \<and> fst (fetch_stock_data (env_at s) s w) = Some d
                  \<and> (\<exists>subs. (ws, subs) \<in> set (clients w) \<and> s \<in> subs)))
       \<and> running (snd (broadcast_cycle env_at iter w)) = running w
       \<and> (running w \<longrightarrow>
            broadcast_updates ((env_at, iter) # rounds) w =
              broadcast_updates rounds (snd (broadcast_cycle env_at iter w)))"
proof -
  let ?order = "iter (all_symbols w)"
  let ?w' = "snd (broadcast_cycle env_at iter w)"
  from assms(1,2,3) have mem: "A \<in> set ?order" "B \<in> set ?order"
    by (simp_all add: iterates_def)
  from assms(5,6) have fv: "fetch_value (env_at A) A = None" "fetch_value (env_at B) B = Some data"
    by (simp_all add: fst_fetch_stock_data)
  have none: "fst (broadcast_cycle env_at iter w) = None"
    by (simp add: broadcast_cycle_def for_symbols_None)
  have cacheB: "stock_data ?w' B = Some data"
    using mem fv by (simp add: broadcast_cycle_def for_symbols_stock_data)
  have cacheA: "stock_data ?w' A = stock_data w A"
    using mem fv by (simp add: broadcast_cycle_def for_symbols_stock_data)
  have out: "outbox ?w' = outbox w @ concat (map (\<lambda>s. case fetch_value (env_at s) s of
                                    Some d \<Rightarrow> pushes s d w | None \<Rightarrow> []) ?order)"
    by (simp add: broadcast_cycle_def for_symbols_outbox)
  have pushB: "\<forall>ws subs. (ws, subs) \<in> set (clients w) \<and> B \<in> subs \<and> ws \<notin> closed w \<longrightarrow>
             (ws, Stock_update B data) \<in> set (outbox ?w')"
  proof (intro allI impI)
    fix ws subs
    assume "(ws, subs) \<in> set (clients w) \<and> B \<in> subs \<and> ws \<notin> closed w"
    then have "(ws, Stock_update B data) \<in> set (pushes B data w)"
      by (auto simp: in_pushes)
    with mem(2) fv(2) show "(ws, Stock_update B data) \<in> set (outbox ?w')"
      unfolding out by force
  qed
  have new: "\<forall>ws m. (ws, m) \<in> set (drop (length (outbox w)) (outbox ?w')) \<longrightarrow>
             (\<exists>s d. m = Stock_update s d \<and> s \<noteq> A
                  \<and> fst (fetch_stock_data (env_at s) s w) = Some d
                  \<and> (\<exists>subs. (ws, subs) \<in> set (clients w) \<and> s \<in> subs))"
  proof (intro allI impI)
    fix ws m
    assume "(ws, m) \<in> set (drop (length (outbox w)) (outbox ?w'))"
    then obtain s where s: "s \<in> set ?order"
      "(ws, m) \<in> set (case fetch_value (env_at s) s of Some d \<Rightarrow> pushes s d w | None \<Rightarrow> [])"
      unfolding out by auto
    then obtain d where d: "fetch_value (env_at s) s = Some d" "(ws, m) \<in> set (pushes s d w)"
      by (cases "fetch_value (env_at s) s") auto
    with fv(1) have "s \<noteq> A" by auto
    with d show "\<exists>s d. m = Stock_update s d \<and> s \<noteq> A
                  \<and> fst (fetch_stock_data (env_at s) s w) = Some d
                  \<and> (\<exists>subs. (ws, subs) \<in> set (clients w) \<and> s \<in> subs)"
      by (auto simp: in_pushes fst_fetch_stock_data)
  qed
  have run: "running ?w' = running w"
    by (simp add: broadcast_cycle_def for_symbols_fields)
  have loop: "running w \<longrightarrow>
            broadcast_updates ((env_at, iter) # rounds) w = broadcast_updates rounds ?w'"
    using none by (cases "broadcast_cycle env_at iter w") simp
  from none cacheB pushB cacheA new run loop show ?thesis
    by blast
qed


theorem fetch_failure_isolated_witness:
  "iterates ((\<lambda>S. [''AAPL'', ''MSFT'']) (all_symbols busy_world)) (all_symbols busy_world)
   \<and> ''AAPL'' \<in> all_symbols busy_world \<and> ''MSFT'' \<in> all_symbols busy_world \<and> ''AAPL'' \<noteq> ''MSFT''
   \<and> fst (fetch_stock_data sample_env ''AAPL'' busy_world) = None
   \<and> fst (fetch_stock_data sample_env ''MSFT'' busy_world) = Some msft_snapshot
   \<and> fst (broadcast_cycle (\<lambda>s. sample_env) (\<lambda>S. [''AAPL'', ''MSFT'']) busy_world) = None
   \<and> stock_data (snd (broadcast_cycle (\<lambda>s. sample_env) (\<lambda>S. [''AAPL'', ''MSFT'']) busy_world)) ''MSFT''
       = Some msft_snapshot
   \<and> stock_data (snd (broadcast_cycle (\<lambda>s. sample_env) (\<lambda>S. [''AAPL'', ''MSFT'']) busy_world)) ''AAPL''
       = Some sample_snapshot
   \<and> (1, Stock_update ''MSFT'' msft_snapshot)
       \<in> set (outbox (snd (broadcast_cycle (\<lambda>s. sample_env) (\<lambda>S. [''AAPL'', ''MSFT'']) busy_world)))
   \<and> (2, Stock_update ''MSFT'' msft_snapshot)
       \<in> set (outbox (snd (broadcast_cycle (\<lambda>s. sample_env) (\<lambda>S. [''AAPL'', ''MSFT'']) busy_world)))
   \<and> running busy_world
   \<and> broadcast_updates [(\<lambda>s. sample_env, \<lambda>S. [''AAPL'', ''MSFT''])] busy_world
       = broadcast_updates [] (snd (broadcast_cycle (\<lambda>s. sample_env) (\<lambda>S. [''AAPL'', ''MSFT'']) busy_world))"
proof -
  let ?w' = "snd (broadcast_cycle (\<lambda>s. sample_env) (\<lambda>S. [''AAPL'', ''MSFT'']) busy_world)"
  have m: "''AAPL'' \<in> all_symbols busy_world" "''MSFT'' \<in> all_symbols busy_world"
    "''AAPL'' \<noteq> ''MSFT''"
    by (simp_all add: all_symbols_def busy_world_def)
  have f: "fst (fetch_stock_data ((\<lambda>s. sample_env) ''AAPL'') ''AAPL'' busy_world) = None"
    "fst (fetch_stock_data ((\<lambda>s. sample_env) ''MSFT'') ''MSFT'' busy_world) = Some msft_snapshot"
    by (simp_all add: sample_fetch_aapl sample_fetch_msft)
  have w: "(1, {''AAPL'', ''MSFT''}) \<in> set (clients busy_world)" "''MSFT'' \<in> {''AAPL'', ''MSFT''}"
    "1 \<notin> closed busy_world"
    "(2, {''MSFT''}) \<in> set (clients busy_world)" "''MSFT'' \<in> {''MSFT''}" "2 \<notin> closed busy_world"
    "running busy_world" "stock_data busy_world ''AAPL'' = Some sample_snapshot"
    by (simp_all add: busy_world_def)
  note T = fetch_failure_isolated [OF sample_iterates m f, of "[]"]
  from T w have p1: "(1, Stock_update ''MSFT'' msft_snapshot) \<in> set (outbox ?w')"
    by blast
  from T w have p2: "(2, Stock_update ''MSFT'' msft_snapshot) \<in> set (outbox ?w')"
    by blast
  from T w have c: "stock_data ?w' ''AAPL'' = Some sample_snapshot"
    by simp
  from T w sample_iterates m f p1 p2 c show ?thesis
    by simp
qed

section \<open>Properties of the connection handler\<close>

lemma py_get_Inl: "py_get data k d = Inl ex \<Longrightarrow> ex = AttributeError"
  by (cases data) simp_all

lemma py_upper_Inl: "py_upper v = Inl ex \<Longrightarrow> ex = AttributeError"
  by (cases v) simp_all

lemma send_raises: "fst (send ws msg w) = Some ex \<Longrightarrow> ex = ConnectionClosed"
  by (simp add: send_def split: if_splits)

lemma subscribe_raises:
  "fst (subscribe ws symbol w) = Some ex \<Longrightarrow> ex = AttributeError \<or> ex = ConnectionClosed"
  by (auto simp: subscribe_def send_def Let_def
      split: if_splits sum.splits option.splits dest: py_upper_Inl)

lemma unsubscribe_raises:
  "fst (unsubscribe ws symbol w) = Some ex \<Longrightarrow> ex = AttributeError"
  by (auto simp: unsubscribe_def split: if_splits sum.splits option.splits dest: py_upper_Inl)

lemma handle_message_body_raises:
  "fst (handle_message_body e ws m w) = Some ex \<Longrightarrow> is_Exception ex"
  by (auto simp: handle_message_body_def is_Exception_def
      split: option.splits sum.splits if_splits
      dest: py_get_Inl subscribe_raises unsubscribe_raises send_raises)

lemma handle_message_None: "fst (handle_message e ws m w) = None"
proof (cases "handle_message_body e ws m w")
  case (Pair r w1)
  show ?thesis
  proof (cases r)
    case None
    with Pair show ?thesis by (simp add: handle_message_def)
  next
    case (Some ex)
    with Pair have "is_Exception ex"
      using handle_message_body_raises [of e ws m w ex] by simp
    with Pair Some show ?thesis by (simp add: handle_message_def)
  qed
qed

lemma disconnect_count_logger:
  "disconnect_count (logger l msg w) = disconnect_count w + (if is_disconnect (l, msg) then 1 else 0)"
  by (simp add: disconnect_count_def logger_def)

lemma disconnect_count_send: "disconnect_count (snd (send ws msg w)) = disconnect_count w"
  by (simp add: send_def disconnect_count_def)

lemma disconnect_count_subscribe:
  "disconnect_count (snd (subscribe ws symbol w)) = disconnect_count w"
  by (simp add: subscribe_def send_def logger_def disconnect_count_def Let_def
      split: sum.splits option.splits)

lemma disconnect_count_unsubscribe:
  "disconnect_count (snd (unsubscribe ws symbol w)) = disconnect_count w"
  by (simp add: unsubscribe_def logger_def disconnect_count_def
      split: sum.splits option.splits)

lemma disconnect_count_body:
  "disconnect_count (snd (handle_message_body e ws m w)) = disconnect_count w"
  by (simp add: handle_message_body_def disconnect_count_subscribe disconnect_count_unsubscribe
      disconnect_count_send disconnect_count_logger split: sum.splits option.splits)

lemma disconnect_count_handle_message:
  "disconnect_count (snd (handle_message e ws m w)) = disconnect_count w"
proof (cases "handle_message_body e ws m w")
  case (Pair r w1)
  with disconnect_count_body [of e ws m w] have "disconnect_count w1 = disconnect_count w"
    by simp
  with Pair show ?thesis
    by (simp add: handle_message_def disconnect_count_logger split: option.splits)
qed

lemma receive_loop_None: "fst (receive_loop ws inbox w) = None"
proof (induction inbox arbitrary: w)
  case Nil
  then show ?case by simp
next
  case (Cons x inbox)
  obtain e m where x: "x = (e, m)" by (cases x)
  from handle_message_None [of e ws m w] Cons.IH x show ?case
    by (cases "handle_message e ws m w") simp
qed

lemma receive_loop_disconnect_count:
  "disconnect_count (snd (receive_loop ws inbox w)) = disconnect_count w"
proof (induction inbox arbitrary: w)
  case Nil
  then show ?case by simp
next
  case (Cons x inbox)
  obtain e m where x: "x = (e, m)" by (cases x)
  from handle_message_None [of e ws m w] disconnect_count_handle_message [of e ws m w] Cons.IH x
  show ?case
    by (cases "handle_message e ws m w") simp
qed

lemma handler_eq: "handler ws inbox w = (None, unregister ws (snd (receive_loop ws inbox (register ws w))))"
  using receive_loop_None [of ws inbox "register ws w"]
  by (cases "receive_loop ws inbox (register ws w)") (simp add: handler_def)

lemma unregister_absent: "map_of (clients (unregister ws w)) ws = None"
  by (simp add: unregister_def logger_def Let_def AList.delete_conv')

lemma disconnect_count_unregister: "disconnect_count (unregister ws w) = disconnect_count w + 1"
  by (simp add: unregister_def Let_def disconnect_count_logger) (simp add: disconnect_count_def)

lemma disconnect_count_register: "disconnect_count (register ws w) = disconnect_count w"
  by (simp add: register_def Let_def disconnect_count_logger) (simp add: disconnect_count_def)

lemma handle_message_body_subscribe:
  assumes "json_loads e m = Some (JObj kvs)" and "map_of kvs ''symbol'' = Some (JStr s)" and "s \<noteq> []"
  shows "map_of kvs ''action'' = Some (JStr ''subscribe'') \<Longrightarrow>
           handle_message_body e ws m w = subscribe ws (JStr s) w"
    and "map_of kvs ''action'' = Some (JStr ''unsubscribe'') \<Longrightarrow>
           handle_message_body e ws m w = unsubscribe ws (JStr s) w"
  using assms by (simp_all add: handle_message_body_def)

lemma strip_log_fields:
  "clients (strip_log w) = clients w" "stock_data (strip_log w) = stock_data w"
  "outbox (strip_log w) = outbox w" "closed (strip_log w) = closed w"
  by (simp_all add: strip_log_def)

lemma strip_log_logger: "strip_log (logger l msg w) = strip_log w"
  by (simp add: strip_log_def logger_def)

lemma strip_send:
  "fst (send ws msg (strip_log w)) = fst (send ws msg w)
   \<and> strip_log (snd (send ws msg (strip_log w))) = strip_log (snd (send ws msg w))"
  by (simp add: send_def strip_log_def)

lemma strip_subscribe:
  "fst (subscribe ws v (strip_log w)) = fst (subscribe ws v w)
   \<and> strip_log (snd (subscribe ws v (strip_log w))) = strip_log (snd (subscribe ws v w))"
  by (simp add: subscribe_def send_def logger_def strip_log_def Let_def
      split: sum.splits option.splits)

lemma strip_unsubscribe:
  "fst (unsubscribe ws v (strip_log w)) = fst (unsubscribe ws v w)
   \<and> strip_log (snd (unsubscribe ws v (strip_log w))) = strip_log (snd (unsubscribe ws v w))"
  by (simp add: unsubscribe_def logger_def strip_log_def split: sum.splits option.splits)

lemma strip_body:
  "fst (handle_message_body e ws m (strip_log w)) = fst (handle_message_body e ws m w)
   \<and> strip_log (snd (handle_message_body e ws m (strip_log w)))
       = strip_log (snd (handle_message_body e ws m w))"
  by (simp add: handle_message_body_def strip_subscribe strip_unsubscribe strip_send
      strip_log_logger split: sum.splits option.splits)
     (simp add: strip_log_def)

lemma strip_handle_message:
  "strip_log (snd (handle_message e ws m (strip_log w))) = strip_log (snd (handle_message e ws m w))"
proof -
  obtain r w1 where a: "handle_message_body e ws m w = (r, w1)"
    by (cases "handle_message_body e ws m w")
  obtain r' w1' where b: "handle_message_body e ws m (strip_log w) = (r', w1')"
    by (cases "handle_message_body e ws m (strip_log w)")
  from strip_body [of e ws m w] a b have "r' = r" "strip_log w1' = strip_log w1"
    by simp_all
  with a b show ?thesis
    by (simp add: handle_message_def strip_log_logger split: option.splits)
qed

lemma strip_receive_loop:
  "strip_log (snd (receive_loop ws inbox (strip_log w))) = strip_log (snd (receive_loop ws inbox w))"
proof (induction inbox arbitrary: w)
  case Nil
  then show ?case by (simp add: strip_log_def)
next
  case (Cons p inbox)
  obtain e m where p: "p = (e, m)" by (cases p)
  obtain w1 where h: "handle_message e ws m w = (None, w1)"
    using handle_message_None [of e ws m w] by (cases "handle_message e ws m w") simp
  obtain w1' where h': "handle_message e ws m (strip_log w) = (None, w1')"
    using handle_message_None [of e ws m "strip_log w"]
    by (cases "handle_message e ws m (strip_log w)") simp
  from strip_handle_message [of e ws m w] h h' have s: "strip_log w1' = strip_log w1"
    by simp
  have "strip_log (snd (receive_loop ws inbox w1')) = strip_log (snd (receive_loop ws inbox (strip_log w1')))"
    by (simp only: Cons.IH)
  also have "\<dots> = strip_log (snd (receive_loop ws inbox w1))"
    by (simp only: s Cons.IH)
  finally show ?case
    using p h h' by simp
qed

lemma strip_receive_loop_cong:
  "strip_log w = strip_log w' \<Longrightarrow>
   strip_log (snd (receive_loop ws inbox w)) = strip_log (snd (receive_loop ws inbox w'))"
  by (metis strip_receive_loop)

lemma strip_unregister_eq:
  "strip_log (unregister ws w) = (strip_log w)\<lparr>clients := AList.delete ws (clients w)\<rparr>"
proof (cases "map_of (clients w) ws")
  case None
  then have "AList.delete ws (clients w) = clients w"
    by (simp add: map_of_eq_None_iff)
  with None show ?thesis
    by (simp add: unregister_def Let_def logger_def strip_log_def)
next
  case (Some S)
  then show ?thesis
    by (simp add: unregister_def Let_def logger_def strip_log_def)
qed

lemma strip_unregister:
  assumes "strip_log w = strip_log w'"
  shows "strip_log (unregister ws w) = strip_log (unregister ws w')"
proof -
  from assms have "clients w = clients w'"
    by (metis strip_log_fields(1))
  with assms show ?thesis
    by (simp add: strip_unregister_eq)
qed

lemma receive_loop_append:
  "receive_loop ws (xs @ ys) w = receive_loop ws ys (snd (receive_loop ws xs w))"
proof (induction xs arbitrary: w)
  case Nil
  then show ?case by simp
next
  case (Cons p xs)
  obtain e m where p: "p = (e, m)" by (cases p)
  obtain w1 where h: "handle_message e ws m w = (None, w1)"
    using handle_message_None [of e ws m w] by (cases "handle_message e ws m w") simp
  with p Cons.IH show ?case by simp
qed


lemma sub_or_unsub_Some:
  "Option.bind (json_loads e m) sub_or_unsub = Some kvs \<Longrightarrow>
   json_loads e m = Some (JObj kvs)
   \<and> (map_of kvs ''action'' = Some (JStr ''subscribe'')
        \<or> map_of kvs ''action'' = Some (JStr ''unsubscribe''))"
proof -
  assume a: "Option.bind (json_loads e m) sub_or_unsub = Some kvs"
  then obtain data where d: "json_loads e m = Some data" "sub_or_unsub data = Some kvs"
    by (cases "json_loads e m") simp_all
  then show ?thesis
    by (cases data) (simp_all split: if_splits)
qed

lemma silent_handle_message:
  assumes "silent_symbol e m"
  shows "handle_message e ws m w = (None, w)"
proof -
  from assms obtain kvs where b: "Option.bind (json_loads e m) sub_or_unsub = Some kvs"
    and f: "absent_or_falsy (map_of kvs ''symbol'')"
    by (cases "Option.bind (json_loads e m) sub_or_unsub") (simp_all add: silent_symbol_def)
  from sub_or_unsub_Some [OF b] have k: "json_loads e m = Some (JObj kvs)"
    and a: "map_of kvs ''action'' = Some (JStr ''subscribe'') \<or> map_of kvs ''action'' = Some (JStr ''unsubscribe'')"
    by simp_all
  from f have t: "\<not> truthy (case map_of kvs ''symbol'' of Some v \<Rightarrow> v | None \<Rightarrow> JNull)"
    by (cases "map_of kvs ''symbol''") simp_all
  from a show ?thesis
  proof
    assume "map_of kvs ''action'' = Some (JStr ''subscribe'')"
    with k t show ?thesis
      by (simp add: handle_message_def handle_message_body_def)
  next
    assume "map_of kvs ''action'' = Some (JStr ''unsubscribe'')"
    with k t show ?thesis
      by (simp add: handle_message_def handle_message_body_def)
  qed
qed

lemma odd_symbol_handle_message:
  assumes "bad_symbol e m" and "\<not> silent_symbol e m"
  shows "handle_message e ws m w =
           (if map_of (clients w) ws \<noteq> None
            then (None, logger ERROR (Error_handling AttributeError) w) else (None, w))"
proof -
  from assms(1) obtain kvs where b: "Option.bind (json_loads e m) sub_or_unsub = Some kvs"
    and nu: "\<not> usable_symbol (map_of kvs ''symbol'')"
    by (cases "Option.bind (json_loads e m) sub_or_unsub") (simp_all add: bad_symbol_def)
  from sub_or_unsub_Some [OF b] have k: "json_loads e m = Some (JObj kvs)"
    and a: "map_of kvs ''action'' = Some (JStr ''subscribe'') \<or> map_of kvs ''action'' = Some (JStr ''unsubscribe'')"
    by simp_all
  from assms(2) b have "\<not> absent_or_falsy (map_of kvs ''symbol'')"
    by (simp add: silent_symbol_def)
  then obtain v where v: "map_of kvs ''symbol'' = Some v" "truthy v"
    by (cases "map_of kvs ''symbol''") simp_all
  with nu have u: "py_upper v = Inl AttributeError"
    by (cases v) simp_all
  from a show ?thesis
  proof
    assume "map_of kvs ''action'' = Some (JStr ''subscribe'')"
    with k v u show ?thesis
      by (simp add: handle_message_def handle_message_body_def subscribe_def is_Exception_def)
  next
    assume s: "map_of kvs ''action'' = Some (JStr ''unsubscribe'')"
    show ?thesis
    proof (cases "map_of (clients w) ws")
      case None
      with s k v u show ?thesis
        by (simp add: handle_message_def handle_message_body_def unsubscribe_def)
    next
      case (Some S)
      with s k v u show ?thesis
        by (simp add: handle_message_def handle_message_body_def unsubscribe_def is_Exception_def)
    qed
  qed
qed

lemma malformed_handle_message_all:
  assumes "malformed_or_unknown e m"
  shows "\<exists>l msg. (l = WARNING \<or> l = ERROR)
           \<and> (\<forall>ws w. handle_message e ws m w = (None, logger l msg w))"
proof (cases "json_loads e m")
  case None
  then have "\<forall>ws w. handle_message e ws m w = (None, logger ERROR (Invalid_JSON m) w)"
    by (simp add: handle_message_def handle_message_body_def)
  then show ?thesis by blast
next
  case (Some data)
  show ?thesis
  proof (cases "\<exists>kvs. data = JObj kvs")
    case True
    then obtain kvs where "data = JObj kvs" by blast
    with Some assms have "\<forall>ws w. handle_message e ws m w =
        (None, logger WARNING (Unknown_action (case map_of kvs ''action'' of Some a \<Rightarrow> a | None \<Rightarrow> JNull)) w)"
      by (auto simp: malformed_or_unknown_def handle_message_def handle_message_body_def
          split: option.splits)
    then show ?thesis by blast
  next
    case False
    with Some have "\<forall>ws w. handle_message e ws m w = (None, logger ERROR (Error_handling AttributeError) w)"
      by (cases data) (simp_all add: handle_message_def handle_message_body_def is_Exception_def)
    then show ?thesis by blast
  qed
qed

lemma ill_formed_handle_message:
  assumes "malformed_or_unknown e m \<or> bad_symbol e m"
  shows "handle_message e ws m w = (None, w)
       \<or> (\<exists>l msg. (l = WARNING \<or> l = ERROR) \<and> handle_message e ws m w = (None, logger l msg w))"
proof (cases "malformed_or_unknown e m")
  case True
  from malformed_handle_message_all [OF True] show ?thesis by blast
next
  case False
  with assms have b: "bad_symbol e m" by blast
  show ?thesis
  proof (cases "silent_symbol e m")
    case True
    then show ?thesis by (simp add: silent_handle_message)
  next
    case False
    from odd_symbol_handle_message [OF b False, of ws w] show ?thesis
      by (cases "map_of (clients w) ws \<noteq> None") auto
  qed
qed

lemma ill_formed_strip:
  assumes "malformed_or_unknown e m \<or> bad_symbol e m"
  shows "strip_log (snd (handle_message e ws m w)) = strip_log w"
  using ill_formed_handle_message [OF assms, of ws w] by (auto simp: strip_log_logger)

lemma handler_transparent:
  assumes "malformed_or_unknown e m \<or> bad_symbol e m"
  shows "strip_log (snd (handler ws (before @ (e, m) # rest) w))
       = strip_log (snd (handler ws (before @ rest) w))"
proof -
  let ?x = "snd (receive_loop ws before (register ws w))"
  obtain w1 where h: "handle_message e ws m ?x = (None, w1)"
    using handle_message_None [of e ws m ?x] by (cases "handle_message e ws m ?x") simp
  with ill_formed_strip [OF assms, of ws ?x] have s: "strip_log w1 = strip_log ?x"
    by simp
  have a: "receive_loop ws (before @ (e, m) # rest) (register ws w) = receive_loop ws rest w1"
    using h by (simp add: receive_loop_append)
  have b: "receive_loop ws (before @ rest) (register ws w) = receive_loop ws rest ?x"
    by (simp add: receive_loop_append)
  have "strip_log (snd (receive_loop ws rest w1)) = strip_log (snd (receive_loop ws rest ?x))"
    by (rule strip_receive_loop_cong [OF s])
  then have "strip_log (unregister ws (snd (receive_loop ws rest w1)))
      = strip_log (unregister ws (snd (receive_loop ws rest ?x)))"
    by (rule strip_unregister)
  then show ?thesis
    by (simp only: handler_eq a b snd_conv)
qed


text \<open>
  C8, as amended. For a message that is not JSON, or whose JSON value is not an object,
  or whose action is absent or unrecognized, or that is a subscribe or unsubscribe whose
  symbol is absent, empty or not a string: \<open>handle_message\<close> raises nothing and
  returns the state as it was or with one line added to the log, at level WARNING or
  ERROR, so registry, cache and outbox are as before. The line is written for every
  message of the first three kinds, whatever the connection and the state, and for a
  truthy symbol that is not a string when the connection is registered; a subscribe or
  unsubscribe whose symbol is absent or falsy is dropped without a line. The receive
  loop goes on with the messages that follow. The handler of a connection is
  registration, the receive loop over the whole inbox, and one unregistration; on an
  inbox that contains such a message it handles the messages before it, the message, and
  the messages after it, and ends with the registry, cache and outbox that the inbox
  without the message gives; it returns without an exception when the transport closes,
  leaves the connection out of the registry and has logged exactly one disconnect more
  than there was, that is, has unregistered once.
\<close>

theorem ill_formed_message_ignored:
  assumes "malformed_or_unknown e m \<or> bad_symbol e m"
  shows "fst (handle_message e ws m w) = None
       \<and> (handle_message e ws m w = (None, w)
            \<or> (\<exists>l msg. (l = WARNING \<or> l = ERROR) \<and> handle_message e ws m w = (None, logger l msg w)))
       \<and> (malformed_or_unknown e m \<longrightarrow>
            (\<exists>l msg. (l = WARNING \<or> l = ERROR)
               \<and> (\<forall>ws' w'. handle_message e ws' m w' = (None, logger l msg w'))))
       \<and> (silent_symbol e m \<longrightarrow> handle_message e ws m w = (None, w))
       \<and> (bad_symbol e m \<and> \<not> silent_symbol e m \<longrightarrow>
            handle_message e ws m w =
              (if map_of (clients w) ws \<noteq> None
               then (None, logger ERROR (Error_handling AttributeError) w) else (None, w)))
       \<and> clients (snd (handle_message e ws m w)) = clients w
       \<and> stock_data (snd (handle_message e ws m w)) = stock_data w
       \<and> outbox (snd (handle_message e ws m w)) = outbox w
       \<and> receive_loop ws ((e, m) # rest) w = receive_loop ws rest (snd (handle_message e ws m w))
       \<and> handler ws inbox w = (None, unregister ws (snd (receive_loop ws inbox (register ws w))))
       \<and> handler ws (before @ (e, m) # rest) w =
            (None, unregister ws (snd (receive_loop ws rest
               (snd (handle_message e ws m (snd (receive_loop ws before (register ws w))))))))
       \<and> clients (snd (handler ws (before @ (e, m) # rest) w)) = clients (snd (handler ws (before @ rest) w))
       \<and> stock_data (snd (handler ws (before @ (e, m) # rest) w))
            = stock_data (snd (handler ws (before @ rest) w))
       \<and> outbox (snd (handler ws (before @ (e, m) # rest) w)) = outbox (snd (handler ws (before @ rest) w))
       \<and> map_of (clients (snd (handler ws (before @ (e, m) # rest) w))) ws = None
       \<and> disconnect_count (snd (handler ws (before @ (e, m) # rest) w)) = disconnect_count w + 1"
proof -
  let ?h = "snd (handler ws (before @ (e, m) # rest) w)"
  let ?h' = "snd (handler ws (before @ rest) w)"
  let ?x = "snd (receive_loop ws before (register ws w))"
  have n: "fst (handle_message e ws m w) = None"
    by (rule handle_message_None)
  have d: "handle_message e ws m w = (None, w)
            \<or> (\<exists>l msg. (l = WARNING \<or> l = ERROR) \<and> handle_message e ws m w = (None, logger l msg w))"
    by (rule ill_formed_handle_message [OF assms])
  have ml: "malformed_or_unknown e m \<longrightarrow>
            (\<exists>l msg. (l = WARNING \<or> l = ERROR)
               \<and> (\<forall>ws' w'. handle_message e ws' m w' = (None, logger l msg w')))"
    using malformed_handle_message_all by blast
  have si: "silent_symbol e m \<longrightarrow> handle_message e ws m w = (None, w)"
    by (simp add: silent_handle_message)
  have od: "bad_symbol e m \<and> \<not> silent_symbol e m \<longrightarrow>
            handle_message e ws m w =
              (if map_of (clients w) ws \<noteq> None
               then (None, logger ERROR (Error_handling AttributeError) w) else (None, w))"
    using odd_symbol_handle_message by blast
  have s: "strip_log (snd (handle_message e ws m w)) = strip_log w"
    by (rule ill_formed_strip [OF assms])
  have f: "clients (snd (handle_message e ws m w)) = clients w"
    "stock_data (snd (handle_message e ws m w)) = stock_data w"
    "outbox (snd (handle_message e ws m w)) = outbox w"
    using s strip_log_fields by metis+
  have rl: "receive_loop ws ((e, m) # rest) w = receive_loop ws rest (snd (handle_message e ws m w))"
    using n by (cases "handle_message e ws m w") simp
  have he: "handler ws inbox w = (None, unregister ws (snd (receive_loop ws inbox (register ws w))))"
    by (rule handler_eq)
  have "fst (handle_message e ws m ?x) = None"
    by (rule handle_message_None)
  then have "receive_loop ws ((e, m) # rest) ?x = receive_loop ws rest (snd (handle_message e ws m ?x))"
    by (cases "handle_message e ws m ?x") simp
  then have hb: "handler ws (before @ (e, m) # rest) w =
            (None, unregister ws (snd (receive_loop ws rest (snd (handle_message e ws m ?x)))))"
    by (simp only: handler_eq receive_loop_append)
  have t: "strip_log ?h = strip_log ?h'"
    by (rule handler_transparent [OF assms])
  have tf: "clients ?h = clients ?h'" "stock_data ?h = stock_data ?h'" "outbox ?h = outbox ?h'"
    using t strip_log_fields by metis+
  have ab: "map_of (clients ?h) ws = None"
    by (simp add: handler_eq unregister_absent)
  have dc: "disconnect_count ?h = disconnect_count w + 1"
    by (simp add: handler_eq disconnect_count_unregister receive_loop_disconnect_count
        disconnect_count_register)
  from n d ml si od f rl he hb tf ab dc show ?thesis
    by (intro conjI)
qed

theorem ill_formed_message_ignored_witness:
  "malformed_or_unknown sample_env ''{action: dance}''
   \<and> silent_symbol sample_env ''{action: subscribe}''
   \<and> bad_symbol sample_env ''{action: subscribe, symbol: 5}''
   \<and> \<not> silent_symbol sample_env ''{action: subscribe, symbol: 5}''
   \<and> map_of (clients sample_world) 1 \<noteq> None
   \<and> handle_message sample_env 1 ''{action: subscribe}'' sample_world = (None, sample_world)
   \<and> handle_message sample_env 1 ''{action: subscribe, symbol: 5}'' sample_world
       = (None, logger ERROR (Error_handling AttributeError) sample_world)
   \<and> fst (handle_message sample_env 1 ''{action: dance}'' sample_world) = None
   \<and> clients (snd (handle_message sample_env 1 ''{action: dance}'' sample_world)) = clients sample_world
   \<and> clients (snd (handler 1 ([(sample_env, ''{action: subscribe, symbol: msft}'')]
              @ (sample_env, ''{action: dance}'') # [(sample_env, ''{action: unsubscribe, symbol: aapl}'')])
              sample_world))
       = clients (snd (handler 1 ([(sample_env, ''{action: subscribe, symbol: msft}'')]
              @ [(sample_env, ''{action: unsubscribe, symbol: aapl}'')]) sample_world))
   \<and> disconnect_count (snd (handler 1 ([(sample_env, ''{action: subscribe, symbol: msft}'')]
              @ (sample_env, ''{action: dance}'') # [(sample_env, ''{action: unsubscribe, symbol: aapl}'')])
              sample_world)) = 1"
proof -
  let ?B = "[(sample_env, ''{action: subscribe, symbol: msft}'')]"
  let ?R = "[(sample_env, ''{action: unsubscribe, symbol: aapl}'')]"
  have m: "malformed_or_unknown sample_env ''{action: dance}''"
    by (simp add: malformed_or_unknown_def sample_env_def)
  have si: "silent_symbol sample_env ''{action: subscribe}''"
    by (simp add: silent_symbol_def sample_env_def)
  have b: "bad_symbol sample_env ''{action: subscribe, symbol: 5}''"
    and ns: "\<not> silent_symbol sample_env ''{action: subscribe, symbol: 5}''"
    by (simp_all add: bad_symbol_def silent_symbol_def sample_env_def)
  have bs: "bad_symbol sample_env ''{action: subscribe}''"
    by (simp add: bad_symbol_def sample_env_def)
  have r: "map_of (clients sample_world) 1 \<noteq> None"
    and d: "disconnect_count sample_world = 0"
    by (simp_all add: disconnect_count_def sample_world_def)
  note D = ill_formed_message_ignored [OF disjI1 [OF m], of 1 sample_world ?R "[]" ?B]
  note S = ill_formed_message_ignored [OF disjI2 [OF bs], of 1 sample_world ?R "[]" ?B]
  note O = ill_formed_message_ignored [OF disjI2 [OF b], of 1 sample_world ?R "[]" ?B]
  note D1 = D [THEN conjunct1]
  note D5' = D [THEN conjunct2, THEN conjunct2, THEN conjunct2, THEN conjunct2, THEN conjunct2]
  note D6 = D5' [THEN conjunct1]
  note D11' = D5' [THEN conjunct2, THEN conjunct2, THEN conjunct2, THEN conjunct2, THEN conjunct2,
      THEN conjunct2]
  note D12 = D11' [THEN conjunct1]
  note D16 = D11' [THEN conjunct2, THEN conjunct2, THEN conjunct2, THEN conjunct2]
  note S4 = S [THEN conjunct2, THEN conjunct2, THEN conjunct2, THEN conjunct1, rule_format, OF si]
  note O5 = O [THEN conjunct2, THEN conjunct2, THEN conjunct2, THEN conjunct2, THEN conjunct1,
      rule_format, OF conjI [OF b ns]]
  from O5 r have o: "handle_message sample_env 1 ''{action: subscribe, symbol: 5}'' sample_world
       = (None, logger ERROR (Error_handling AttributeError) sample_world)"
    by simp
  from D16 d have c: "disconnect_count (snd (handler 1 (?B @ (sample_env, ''{action: dance}'') # ?R)
              sample_world)) = 1"
    by simp
  from m si b ns r S4 o D1 D6 D12 c show ?thesis
    by (intro conjI)
qed

text \<open>
  C8 as stated fails: a subscribe message without its symbol is one that does not
  parse as the expected payload, and handling it for a registered connection returns
  the state unchanged, with no warning or error in the log.
\<close>

theorem missing_symbol_not_logged:
  "json_loads sample_env ''{action: subscribe}'' = Some (JObj [(''action'', JStr ''subscribe'')])
   \<and> bad_symbol sample_env ''{action: subscribe}''
   \<and> map_of (clients sample_world) 1 = Some {''AAPL''}
   \<and> handle_message sample_env 1 ''{action: subscribe}'' sample_world = (None, sample_world)
   \<and> log (snd (handle_message sample_env 1 ''{action: subscribe}'' sample_world)) = []"
proof -
  have j: "json_loads sample_env ''{action: subscribe}'' = Some (JObj [(''action'', JStr ''subscribe'')])"
    by (simp add: sample_env_def)
  have b: "bad_symbol sample_env ''{action: subscribe}''"
    by (simp add: bad_symbol_def j)
  have c: "map_of (clients sample_world) 1 = Some {''AAPL''}" and l: "log sample_world = []"
    by (simp_all add: sample_world_def)
  have h: "handle_message sample_env 1 ''{action: subscribe}'' sample_world = (None, sample_world)"
    by (simp add: handle_message_def handle_message_body_def j)
  from j b c h l show ?thesis
    by simp
qed


section \<open>Stopping\<close>

lemma stop_stops:
  "running (stop w) = False
   \<and> (server w \<noteq> None \<longrightarrow> server (stop w) = Some Closed_listener)
   \<and> broadcast_updates rounds (stop w) = Some (None, stop w)"
proof -
  have "running (stop w) = False"
    by (simp add: stop_def logger_def Let_def split: option.splits)
  moreover from this have "broadcast_updates rounds (stop w) = Some (None, stop w)"
    by (cases rounds) auto
  moreover have "server w \<noteq> None \<longrightarrow> server (stop w) = Some Closed_listener"
    by (auto simp: stop_def logger_def Let_def)
  ultimately show ?thesis by blast
qed

lemma stop_server_instance: "instance_of_server (stop_server m) = instance_of_server m"
  by (simp add: stop_server_def)

text \<open>
  C7. \<open>stop_server\<close> on a manager whose server is running: the manager's flag
  \<open>server_running\<close> is cleared and the line is printed, and the server object is as it
  was: \<open>running\<close> still holds, the listening socket is still open, and the broadcast loop
  goes through further passes without returning. (\<open>stop\<close> of the server object, which
  \<open>stop_server\<close> does not call, clears the flag and closes the socket: \<open>stop_stops\<close>.)
\<close>

theorem stop_server_leaves_server_running:
  "server_running running_system
   \<and> websocket_thread running_system \<noteq> None
   \<and> running (instance_of_server running_system)
   \<and> server (instance_of_server running_system) = Some Listening
   \<and> server_running (stop_server running_system) = False
   \<and> stdout (stop_server running_system) = [''WebSocket server stopped'']
   \<and> instance_of_server (stop_server running_system) = instance_of_server running_system
   \<and> running (instance_of_server (stop_server running_system))
   \<and> server (instance_of_server (stop_server running_system)) = Some Listening
   \<and> broadcast_updates [(\<lambda>s. sample_env, \<lambda>S. [''AAPL'']), (\<lambda>s. sample_env, \<lambda>S. [''AAPL''])]
        (instance_of_server (stop_server running_system)) = None"
proof -
  have r: "running (instance_of_server (stop_server running_system))"
    by (simp add: stop_server_def running_system_def sample_world_def)
  from r have "broadcast_updates [(\<lambda>s. sample_env, \<lambda>S. [''AAPL'']), (\<lambda>s. sample_env, \<lambda>S. [''AAPL''])]
        (instance_of_server (stop_server running_system)) = None"
    by (rule running_loops)
  then show ?thesis
    by (simp add: stop_server_def running_system_def sample_world_def)
qed

section \<open>Subscriptions, by call and by message\<close>

lemma map_entry_absent: "map_of al k = None \<Longrightarrow> AList.map_entry k f al = al"
  by (induction al) (auto split: if_splits)

lemma clients_apply_op:
  "clients (apply_op ws x w) =
     AList.map_entry ws (if is_Subscribe x then insert (op_symbol x) else (\<lambda>t. t - {op_symbol x}))
       (clients w)"
proof (cases "map_of (clients w) ws")
  case None
  then show ?thesis
    by (cases x) (simp_all add: subscribe_def unsubscribe_def map_entry_absent)
next
  case (Some S)
  then show ?thesis
    by (cases x) (simp_all add: clients_subscribe clients_unsubscribe)
qed

lemma clients_handle_message:
  assumes "message_op e m = Some x"
  shows "clients (snd (handle_message e ws m w)) = clients (apply_op ws x w)"
proof -
  from assms obtain kvs s where k: "json_loads e m = Some (JObj kvs)"
    "map_of kvs ''symbol'' = Some (JStr s)" "s \<noteq> []"
    and a: "map_of kvs ''action'' = Some (JStr ''subscribe'') \<and> x = Subscribe s
          \<or> map_of kvs ''action'' = Some (JStr ''unsubscribe'') \<and> x = Unsubscribe s"
    by (auto simp: message_op_def split: option.splits json.splits if_splits)
  from a have "handle_message_body e ws m w = (fst (handle_message_body e ws m w), apply_op ws x w)"
    using handle_message_body_subscribe [OF k, of ws w] by auto
  then show ?thesis
    by (cases "fst (handle_message_body e ws m w)")
       (auto simp: handle_message_def logger_def split: prod.splits)
qed

lemma clients_receive_loop:
  "list_all2 (\<lambda>p x. message_op (fst p) (snd p) = Some x) inbox xs \<Longrightarrow> clients w = clients w' \<Longrightarrow>
   clients (snd (receive_loop ws inbox w)) = clients (run_ops ws xs w')"
proof (induction inbox xs arbitrary: w w' rule: list_all2_induct)
  case Nil
  then show ?case by simp
next
  case (Cons p inbox x xs)
  obtain e m where p: "p = (e, m)" by (cases p)
  obtain w1 where h: "handle_message e ws m w = (None, w1)"
    using handle_message_None [of e ws m w] by (cases "handle_message e ws m w") simp
  from Cons.hyps(1) p have "clients w1 = clients (apply_op ws x w)"
    using clients_handle_message [of e m x ws w] h by simp
  also have "\<dots> = clients (apply_op ws x w')"
    by (simp add: clients_apply_op Cons.prems)
  finally have "clients (snd (receive_loop ws inbox w1)) = clients (run_ops ws xs (apply_op ws x w'))"
    by (rule Cons.IH)
  with p h show ?case by simp
qed

lemma message_op_Subscribe:
  "message_op e m = Some (Subscribe s) \<Longrightarrow>
   \<exists>kvs. json_loads e m = Some (JObj kvs) \<and> map_of kvs ''symbol'' = Some (JStr s) \<and> s \<noteq> []
      \<and> map_of kvs ''action'' = Some (JStr ''subscribe'')"
  by (auto simp: message_op_def split: option.splits json.splits if_splits)

text \<open>
  C3. When a registered connection subscribes to a symbol whose uppercased form has a
  cached snapshot, and its transport is open, the call raises nothing and appends to the
  outbox exactly one push: the cached snapshot, addressed to that connection; everything
  else the call changes is the subscription set and the log. When the symbol has no
  cached snapshot the outbox is left as it was. Handling a well-formed subscribe message
  of a connection whose transport is open is this call, so the push happens within the
  handling of the message.
\<close>

theorem immediate_push_on_subscribe:
  assumes "map_of (clients w) ws = Some S0"
  shows "(stock_data w (upper s) = Some data \<and> ws \<notin> closed w \<longrightarrow>
           subscribe ws (JStr s) w =
             (None, logger INFO (Client_subscribed (upper s))
                (w\<lparr>clients := AList.map_entry ws (insert (upper s)) (clients w),
                   outbox := outbox w @ [(ws, Stock_update (upper s) data)]\<rparr>)))
       \<and> (stock_data w (upper t) = None \<longrightarrow>
           fst (subscribe ws (JStr t) w) = None
           \<and> outbox (snd (subscribe ws (JStr t) w)) = outbox w)
       \<and> (message_op e m = Some (Subscribe s) \<and> ws \<notin> closed w \<longrightarrow>
           handle_message e ws m w = subscribe ws (JStr s) w)"
proof (intro conjI)
  show "stock_data w (upper s) = Some data \<and> ws \<notin> closed w \<longrightarrow>
           subscribe ws (JStr s) w =
             (None, logger INFO (Client_subscribed (upper s))
                (w\<lparr>clients := AList.map_entry ws (insert (upper s)) (clients w),
                   outbox := outbox w @ [(ws, Stock_update (upper s) data)]\<rparr>))"
    using assms by (simp add: subscribe_def send_def logger_def Let_def)
  show "stock_data w (upper t) = None \<longrightarrow>
           fst (subscribe ws (JStr t) w) = None
           \<and> outbox (snd (subscribe ws (JStr t) w)) = outbox w"
    using assms by (simp add: subscribe_def send_def logger_def Let_def)
  show "message_op e m = Some (Subscribe s) \<and> ws \<notin> closed w \<longrightarrow>
           handle_message e ws m w = subscribe ws (JStr s) w"
  proof
    assume a: "message_op e m = Some (Subscribe s) \<and> ws \<notin> closed w"
    then obtain kvs where k: "json_loads e m = Some (JObj kvs)"
      "map_of kvs ''symbol'' = Some (JStr s)" "s \<noteq> []"
      "map_of kvs ''action'' = Some (JStr ''subscribe'')"
      using message_op_Subscribe by blast
    have b: "handle_message_body e ws m w = subscribe ws (JStr s) w"
      using handle_message_body_subscribe(1) [OF k(1,2,3) k(4)] .
    from a assms have "fst (subscribe ws (JStr s) w) = None"
      by (simp add: subscribe_def send_def Let_def split: option.splits)
    with b show "handle_message e ws m w = subscribe ws (JStr s) w"
      by (cases "subscribe ws (JStr s) w") (simp add: handle_message_def)
  qed
qed

theorem immediate_push_on_subscribe_witness:
  "map_of (clients sample_world) 2 = Some {}
   \<and> stock_data sample_world (upper ''aapl'') = Some sample_snapshot
   \<and> 2 \<notin> closed sample_world
   \<and> fst (subscribe 2 (JStr ''aapl'') sample_world) = None
   \<and> outbox (snd (subscribe 2 (JStr ''aapl'') sample_world)) = [(2, Stock_update ''AAPL'' sample_snapshot)]
   \<and> stock_data sample_world (upper ''msft'') = None
   \<and> outbox (snd (subscribe 2 (JStr ''msft'') sample_world)) = []
   \<and> message_op sample_env ''{action: subscribe, symbol: aapl}'' = Some (Subscribe ''aapl'')
   \<and> outbox (snd (handle_message sample_env 2 ''{action: subscribe, symbol: aapl}'' sample_world))
       = [(2, Stock_update ''AAPL'' sample_snapshot)]"
proof -
  have h: "map_of (clients sample_world) 2 = Some {}"
    by (simp add: sample_world_def)
  have c: "stock_data sample_world (upper ''aapl'') = Some sample_snapshot \<and> 2 \<notin> closed sample_world"
    and n: "stock_data sample_world (upper ''msft'') = None"
    by (simp_all add: sample_world_def upper_aapl upper_msft)
  have e: "outbox sample_world = []"
    by (simp add: sample_world_def)
  have o: "message_op sample_env ''{action: subscribe, symbol: aapl}'' = Some (Subscribe ''aapl'')"
    by (simp add: message_op_def sample_env_def)
  note T = immediate_push_on_subscribe [OF h, of "''aapl''" sample_snapshot "''msft''"
      sample_env "''{action: subscribe, symbol: aapl}''"]
  note T1 = T [THEN conjunct1, rule_format, OF c]
  note T2 = T [THEN conjunct2, THEN conjunct1, rule_format, OF n]
  note T3 = T [THEN conjunct2, THEN conjunct2, rule_format, OF conjI [OF o conjunct2 [OF c]]]
  from T1 have a: "fst (subscribe 2 (JStr ''aapl'') sample_world) = None"
    "outbox (snd (subscribe 2 (JStr ''aapl'') sample_world)) = [(2, Stock_update ''AAPL'' sample_snapshot)]"
    by (simp_all add: logger_def e upper_aapl)
  from T2 e have b: "outbox (snd (subscribe 2 (JStr ''msft'') sample_world)) = []"
    by simp
  from T3 a(2) have d: "outbox (snd (handle_message sample_env 2 ''{action: subscribe, symbol: aapl}'' sample_world))
       = [(2, Stock_update ''AAPL'' sample_snapshot)]"
    by simp
  from h c a b n o d show ?thesis
    by (intro conjI) simp_all
qed

text \<open>
  C1. For a registered connection with subscription set \<open>S0\<close>: \<open>subscribe\<close> inserts the
  uppercased symbol, and a subscribe of a symbol already present leaves the registry as
  it was; \<open>unsubscribe\<close> removes the uppercased symbol, and an unsubscribe of a symbol
  that is not present changes nothing at all; after any finite sequence of the two
  operations the connection's set holds exactly the symbols whose last matching
  operation was a subscribe (or which had no matching operation and were in \<open>S0\<close>),
  and the sets of the other connections are untouched. Handling a sequence of well-formed
  subscribe and unsubscribe messages leaves the registry that the sequence of operations
  they stand for leaves.
\<close>

theorem subscription_set_semantics:
  assumes "map_of (clients w) ws = Some S0"
  shows "map_of (clients (snd (subscribe ws (JStr s) w))) ws = Some (insert (upper s) S0)
       \<and> (upper s \<in> S0 \<longrightarrow> clients (snd (subscribe ws (JStr s) w)) = clients w)
       \<and> map_of (clients (snd (unsubscribe ws (JStr t) w))) ws = Some (S0 - {upper t})
       \<and> (upper t \<notin> S0 \<longrightarrow> unsubscribe ws (JStr t) w = (None, w))
       \<and> (\<exists>S. map_of (clients (run_ops ws xs w)) ws = Some S
               \<and> (\<forall>u. u \<in> S \<longleftrightarrow> last_subscribed S0 xs u))
       \<and> (\<forall>ws'. ws' \<noteq> ws \<longrightarrow> map_of (clients (run_ops ws xs w)) ws' = map_of (clients w) ws')
       \<and> (list_all2 (\<lambda>p x. message_op (fst p) (snd p) = Some x) inbox xs \<longrightarrow>
            clients (snd (receive_loop ws inbox w)) = clients (run_ops ws xs w))"
proof (intro conjI)
  show "map_of (clients (snd (subscribe ws (JStr s) w))) ws = Some (insert (upper s) S0)"
    using assms by (simp add: clients_subscribe map_of_map_entry)
  show "upper s \<in> S0 \<longrightarrow> clients (snd (subscribe ws (JStr s) w)) = clients w"
    using assms by (simp add: clients_subscribe map_entry_id insert_absorb)
  show "map_of (clients (snd (unsubscribe ws (JStr t) w))) ws = Some (S0 - {upper t})"
    using assms by (simp add: clients_unsubscribe map_of_map_entry)
  show "upper t \<notin> S0 \<longrightarrow> unsubscribe ws (JStr t) w = (None, w)"
    using assms by (simp add: unsubscribe_def)
  show "\<exists>S. map_of (clients (run_ops ws xs w)) ws = Some S
             \<and> (\<forall>u. u \<in> S \<longleftrightarrow> last_subscribed S0 xs u)"
    using assms by (rule subs_run_ops)
  show "\<forall>ws'. ws' \<noteq> ws \<longrightarrow> map_of (clients (run_ops ws xs w)) ws' = map_of (clients w) ws'"
    by (simp add: others_run_ops)
  show "list_all2 (\<lambda>p x. message_op (fst p) (snd p) = Some x) inbox xs \<longrightarrow>
            clients (snd (receive_loop ws inbox w)) = clients (run_ops ws xs w)"
    by (simp add: clients_receive_loop)
qed

theorem subscription_set_semantics_witness:
  "map_of (clients sample_world) 1 = Some {''AAPL''}
   \<and> upper ''aapl'' \<in> {''AAPL''}
   \<and> clients (snd (subscribe 1 (JStr ''aapl'') sample_world)) = clients sample_world
   \<and> upper ''msft'' \<notin> {''AAPL''}
   \<and> unsubscribe 1 (JStr ''msft'') sample_world = (None, sample_world)
   \<and> (2::nat) \<noteq> 1
   \<and> map_of (clients (run_ops 1 [Subscribe ''msft'', Unsubscribe ''aapl''] sample_world)) 2 = Some {}
   \<and> last_subscribed {''AAPL''} [Subscribe ''msft'', Unsubscribe ''aapl''] ''MSFT''
   \<and> \<not> last_subscribed {''AAPL''} [Subscribe ''msft'', Unsubscribe ''aapl''] ''AAPL''
   \<and> (\<exists>S. map_of (clients (run_ops 1 [Subscribe ''msft'', Unsubscribe ''aapl''] sample_world)) 1 = Some S
         \<and> ''MSFT'' \<in> S \<and> ''AAPL'' \<notin> S)
   \<and> list_all2 (\<lambda>p x. message_op (fst p) (snd p) = Some x)
        [(sample_env, ''{action: subscribe, symbol: msft}''),
         (sample_env, ''{action: unsubscribe, symbol: aapl}'')]
        [Subscribe ''msft'', Unsubscribe ''aapl'']
   \<and> clients (snd (receive_loop 1 [(sample_env, ''{action: subscribe, symbol: msft}''),
         (sample_env, ''{action: unsubscribe, symbol: aapl}'')] sample_world))
       = clients (run_ops 1 [Subscribe ''msft'', Unsubscribe ''aapl''] sample_world)"
proof -
  let ?inbox = "[(sample_env, ''{action: subscribe, symbol: msft}''),
         (sample_env, ''{action: unsubscribe, symbol: aapl}'')]"
  let ?xs = "[Subscribe ''msft'', Unsubscribe ''aapl'']"
  have h: "map_of (clients sample_world) 1 = Some {''AAPL''}"
    by (simp add: sample_world_def)
  have l1: "last_subscribed {''AAPL''} ?xs ''MSFT''"
    and l2: "\<not> last_subscribed {''AAPL''} ?xs ''AAPL''"
    by (simp_all add: last_subscribed_def upper_aapl upper_msft)
  have o: "map_of (clients sample_world) 2 = Some {}"
    by (simp add: sample_world_def)
  have m: "upper ''aapl'' \<in> {''AAPL''}" "upper ''msft'' \<notin> {''AAPL''}" "(2::nat) \<noteq> 1"
    by (simp_all add: upper_aapl upper_msft)
  have i: "list_all2 (\<lambda>p x. message_op (fst p) (snd p) = Some x) ?inbox ?xs"
    by (simp add: message_op_def sample_env_def)
  note T = subscription_set_semantics [OF h, of "''aapl''" "''msft''" ?xs ?inbox]
  note T2 = T [THEN conjunct2, THEN conjunct1]
  note T4 = T [THEN conjunct2, THEN conjunct2, THEN conjunct2, THEN conjunct1]
  note T5 = T [THEN conjunct2, THEN conjunct2, THEN conjunct2, THEN conjunct2, THEN conjunct1]
  note T6 = T [THEN conjunct2, THEN conjunct2, THEN conjunct2, THEN conjunct2, THEN conjunct2,
      THEN conjunct1]
  note T7 = T [THEN conjunct2, THEN conjunct2, THEN conjunct2, THEN conjunct2, THEN conjunct2,
      THEN conjunct2]
  have a: "clients (snd (subscribe 1 (JStr ''aapl'') sample_world)) = clients sample_world"
    by (rule T2 [rule_format, OF m(1)])
  have b: "unsubscribe 1 (JStr ''msft'') sample_world = (None, sample_world)"
    by (rule T4 [rule_format, OF m(2)])
  have c: "map_of (clients (run_ops 1 ?xs sample_world)) 2 = Some {}"
    using T6 [rule_format, OF m(3)] o by (simp only:)
  from T5 obtain S where S: "map_of (clients (run_ops 1 ?xs sample_world)) 1 = Some S"
    "\<forall>u. u \<in> S \<longleftrightarrow> last_subscribed {''AAPL''} ?xs u"
    by (elim exE conjE)
  from S(2) l1 l2 have "''MSFT'' \<in> S" "''AAPL'' \<notin> S"
    by (simp_all only: not_False_eq_True)
  with S(1) have d: "\<exists>S. map_of (clients (run_ops 1 ?xs sample_world)) 1 = Some S
         \<and> ''MSFT'' \<in> S \<and> ''AAPL'' \<notin> S"
    by (intro exI conjI)
  have e: "clients (snd (receive_loop 1 ?inbox sample_world))
       = clients (run_ops 1 ?xs sample_world)"
    by (rule T7 [rule_format, OF i])
  from h m a b c l1 l2 d i e show ?thesis
    by (intro conjI)
qed

end
